theory Spec2Isabelle
  imports Complex_Main "HOL-Library.Sublist"
begin

section \<open>JavaScript values\<close>

text \<open>
  The service layer receives its arguments from request bodies and query strings, so a
  field may hold any primitive. Objects and arrays as field values are not part of the
  model. A string is a list of code units below 256, so \<open>CHR 0xA0\<close> is the no-break space.
  The model computes with the mathematical integers. JavaScript's numbers are doubles:
  they are these integers as long as the magnitude stays below \<open>2^53\<close>, and \<open>JNum n\<close> stands
  for a number of JavaScript in that range only; a number that is no integer is not part of
  the model. The paging contract is stated for that range.
\<close>

datatype jsval = Undefined | Null | JBool bool | JNum int | JStr string

text \<open>An object is read field by field; an absent field reads as \<open>undefined\<close>.\<close>

type_synonym jsobj = "string \<Rightarrow> jsval"

definition empty_obj :: jsobj where
  "empty_obj = (\<lambda>k. Undefined)"

text \<open>Truthiness, as used by \<^verbatim>\<open>!v\<close>, \<^verbatim>\<open>a || b\<close> and \<^verbatim>\<open>if (v)\<close>.\<close>

fun truthy :: "jsval \<Rightarrow> bool" where
  "truthy Undefined = False"
| "truthy Null = False"
| "truthy (JBool b) = b"
| "truthy (JNum n) = (n \<noteq> 0)"
| "truthy (JStr s) = (s \<noteq> [])"

definition digit_char :: "nat \<Rightarrow> char" where
  "digit_char d = ''0123456789'' ! d"

fun digits :: "nat \<Rightarrow> string" where
  "digits n = (if n < 10 then [digit_char n] else digits (n div 10) @ [digit_char (n mod 10)])"

declare digits.simps [simp del]

text \<open>
  \<^verbatim>\<open>String(v)\<close> on a primitive. An integer is printed with all its digits, as JavaScript
  prints the integers of magnitude below \<open>10^21\<close>.
\<close>

fun js_String :: "jsval \<Rightarrow> string" where
  "js_String Undefined = ''undefined''"
| "js_String Null = ''null''"
| "js_String (JBool b) = (if b then ''true'' else ''false'')"
| "js_String (JNum n) = (if n < 0 then CHR ''-'' # digits (nat (- n)) else digits (nat n))"
| "js_String (JStr s) = s"

text \<open>
  The white space and the line terminators of JavaScript among the code units below 256:
  tab, line feed, vertical tab, form feed, carriage return, space and no-break space.
\<close>

definition is_ws :: "char \<Rightarrow> bool" where
  "is_ws c = (c \<in> set [CHR 0x09, CHR 0x0A, CHR 0x0B, CHR 0x0C, CHR 0x0D, CHR 0x20, CHR 0xA0])"

text \<open>\<^verbatim>\<open>s.trim()\<close>.\<close>

definition js_trim :: "string \<Rightarrow> string" where
  "js_trim s = rev (dropWhile is_ws (rev (dropWhile is_ws s)))"

definition is_digit :: "char \<Rightarrow> bool" where
  "is_digit c = (c \<in> set ''0123456789'')"

definition digit_val :: "char \<Rightarrow> int" where
  "digit_val c = int (of_char c) - 48"

definition digits_val :: "string \<Rightarrow> int" where
  "digits_val ds = foldl (\<lambda>a c. 10 * a + digit_val c) 0 ds"

text \<open>
  \<^verbatim>\<open>parseInt(v, 10)\<close>: the argument is turned into a string, leading white space and one
  sign are skipped, and the longest prefix of decimal digits is read. \<open>None\<close> is
  \<open>NaN\<close>: there was no digit. The result is the integer that the digits denote;
  JavaScript returns the double nearest to it, which is that integer when its magnitude is
  below \<open>2^53\<close>.
\<close>

definition parseInt :: "jsval \<Rightarrow> int option" where
  "parseInt v =
     (let s = dropWhile is_ws (js_String v);
          neg = (case s of [] \<Rightarrow> False | c # r \<Rightarrow> c = CHR ''-'');
          body = (case s of [] \<Rightarrow> [] | c # r \<Rightarrow> if c = CHR ''-'' \<or> c = CHR ''+'' then r else s);
          ds = takeWhile is_digit body
      in if ds = [] then None
         else Some (if neg then - digits_val ds else digits_val ds))"

text \<open>
  \<^verbatim>\<open>
  function toInt(v, def) {
    const n = parseInt(v, 10);
    return Number.isNaN(n) || n <= 0 ? def : n;
  }
  \<close>
\<close>

definition toInt :: "jsval \<Rightarrow> int \<Rightarrow> int" where
  "toInt v def = (case parseInt v of None \<Rightarrow> def | Some n \<Rightarrow> if n \<le> 0 then def else n)"

section \<open>Regular expressions of the store\<close>

text \<open>
  The filters hand the caller's string to the store as \<^verbatim>\<open>{ $regex: s, $options: 'i' }\<close>.
  The store's engine is not part of the repository. Its behaviour is written out here for
  the patterns made of literal characters, the dot and the postfix star, matched without
  anchors and without regard to ASCII case; a star with nothing to repeat is rejected by
  the engine. Patterns that use any other operator are left to the engine, a parameter
  of the model.
\<close>

datatype rx_atom = Lit char | AnyChar

datatype rx_item = Once rx_atom | Many rx_atom

definition rx_operators :: string where
  "rx_operators = ''+?()[]{}^$|'' @ [CHR 0x5C]"

definition rx_plain :: "string \<Rightarrow> bool" where
  "rx_plain p = (\<forall>c \<in> set p. c \<notin> set rx_operators)"

definition rx_literal :: "string \<Rightarrow> bool" where
  "rx_literal p = (\<forall>c \<in> set p. c \<notin> set rx_operators \<and> c \<noteq> CHR ''.'' \<and> c \<noteq> CHR ''*'')"

definition rx_atom_of :: "char \<Rightarrow> rx_atom" where
  "rx_atom_of c = (if c = CHR ''.'' then AnyChar else Lit c)"

fun rx_parse :: "string \<Rightarrow> rx_item list option" where
  "rx_parse [] = Some []"
| "rx_parse [c] = (if c = CHR ''*'' then None else Some [Once (rx_atom_of c)])"
| "rx_parse (c # d # ds) =
     (if c = CHR ''*'' then None
      else if d = CHR ''*'' then map_option (Cons (Many (rx_atom_of c))) (rx_parse ds)
      else map_option (Cons (Once (rx_atom_of c))) (rx_parse (d # ds)))"

definition to_lower :: "char \<Rightarrow> char" where
  "to_lower c = (let n = (of_char c :: nat) in if 65 \<le> n \<and> n \<le> 90 then char_of (n + 32) else c)"

fun atom_ok :: "rx_atom \<Rightarrow> char \<Rightarrow> bool" where
  "atom_ok (Lit p) c = (to_lower p = to_lower c)"
| "atom_ok AnyChar c = (c \<noteq> CHR 0x0A)"

fun rx_here :: "rx_item list \<Rightarrow> string \<Rightarrow> bool" where
  "rx_here [] s = True"
| "rx_here (Once a # r) [] = False"
| "rx_here (Once a # r) (c # cs) = (atom_ok a c \<and> rx_here r cs)"
| "rx_here (Many a # r) [] = rx_here r []"
| "rx_here (Many a # r) (c # cs) = (rx_here r (c # cs) \<or> (atom_ok a c \<and> rx_here (Many a # r) cs))"

fun rx_find :: "rx_item list \<Rightarrow> string \<Rightarrow> bool" where
  "rx_find r [] = rx_here r []"
| "rx_find r (c # cs) = (rx_here r (c # cs) \<or> rx_find r cs)"

section \<open>Documents and the store\<close>

type_synonym oid = string

record role_doc =
  role_id :: oid
  role_name :: string
  role_isDelete :: bool
  role_createdAt :: int

record user_doc =
  uid :: oid
  username :: string
  password :: string
  email :: string
  fullName :: string
  avatarUrl :: string
  role :: "oid option"
  status :: bool
  isDelete :: bool
  createdAt :: int

text \<open>Each collection is the list of its documents in insertion order.\<close>

record store =
  users :: "user_doc list"
  roles :: "role_doc list"

text \<open>
  What the services call in Mongoose, bcrypt and the store's regular expression engine.
  None of it is code of the repository, so it is a parameter of every operation:
  \<^item> \<open>isValidObjectId\<close>: \<^verbatim>\<open>mongoose.isValidObjectId\<close>;
  \<^item> \<open>castObjectId\<close>: the identifier that Mongoose casts a value to, in a query by \<open>_id\<close> or
    in an update; \<open>None\<close> when it rejects the value with a cast error, which it may do even
    for a value that \<open>isValidObjectId\<close> accepts;
  \<^item> \<open>bcrypt_hash\<close>: \<^verbatim>\<open>bcrypt.hash(s, 10)\<close>;
  \<^item> \<open>castString\<close>, \<open>castBoolean\<close>, \<open>castRef\<close>, \<open>castDate\<close>: the cast (with the schema's
    setters and validators) of a value written to, or compared with, a path of that type;
    \<open>None\<close> when the value is rejected;
  \<^item> \<open>pcre\<close>: the engine on the patterns that use an operator other than dot and star;
    \<open>None\<close> when the pattern is rejected.
\<close>

record lib =
  isValidObjectId :: "jsval \<Rightarrow> bool"
  castObjectId :: "jsval \<Rightarrow> oid option"
  bcrypt_hash :: "string \<Rightarrow> string"
  castString :: "jsval \<Rightarrow> string option"
  castBoolean :: "jsval \<Rightarrow> bool option"
  castRef :: "jsval \<Rightarrow> oid option option"
  castDate :: "jsval \<Rightarrow> int option"
  pcre :: "string \<Rightarrow> (string \<Rightarrow> bool) option"

datatype store_error =
    DuplicateKey "string list option"
  | CastFailed
  | ImmutableField
  | InvalidRegex

datatype failure = HttpError nat string | StoreFailure store_error

text \<open>The plain array, or the pagination envelope \<open>{items, total, page, limit, pages}\<close>.\<close>

datatype 'a listing = Plain "'a list" | Envelope "'a list" int int int int

fun items_of :: "'a listing \<Rightarrow> 'a list" where
  "items_of (Plain xs) = xs"
| "items_of (Envelope xs t p l n) = xs"

text \<open>A pattern with option \<open>i\<close>, compiled to its unanchored search.\<close>

definition regex_i :: "lib \<Rightarrow> string \<Rightarrow> (string \<Rightarrow> bool) option" where
  "regex_i lib p = (if rx_plain p then map_option rx_find (rx_parse p) else pcre lib p)"

text \<open>\<^verbatim>\<open>.sort({ createdAt: -1 })\<close>: newest first; equal dates keep the insertion order.\<close>

definition sort_desc :: "('a \<Rightarrow> int) \<Rightarrow> 'a list \<Rightarrow> 'a list" where
  "sort_desc f xs = sort_key (\<lambda>x. - f x) xs"

section \<open>Role service\<close>

text \<open>The query object of \<open>getAllRoles\<close>, as the predicate it selects with.\<close>

definition role_query :: "lib \<Rightarrow> jsval \<Rightarrow> jsval \<Rightarrow> store_error + (role_doc \<Rightarrow> bool)" where
  "role_query lib name_v includeDeleted =
     (let live = (\<not> truthy includeDeleted \<or> includeDeleted = JStr ''false'') in
      if truthy name_v then
        (case regex_i lib (js_String name_v) of
           None \<Rightarrow> Inl InvalidRegex
         | Some m \<Rightarrow> Inr (\<lambda>r. (if live then \<not> role_isDelete r else True) \<and> m (role_name r)))
      else Inr (\<lambda>r. if live then \<not> role_isDelete r else True))"

definition getAllRoles :: "lib \<Rightarrow> store \<Rightarrow> jsval \<Rightarrow> jsval \<Rightarrow> jsval \<Rightarrow> jsval
    \<Rightarrow> failure + role_doc listing" where
  "getAllRoles lib st name_v includeDeleted page_v limit_v =
     (case role_query lib name_v includeDeleted of
        Inl e \<Rightarrow> Inl (StoreFailure e)
      | Inr query \<Rightarrow>
          (let hasPaging = (truthy page_v \<or> truthy limit_v) in
           if hasPaging then
             (let p = toInt page_v 1;
                  l = toInt limit_v 10;
                  items = take (nat l) (drop (nat ((p - 1) * l))
                            (sort_desc role_createdAt (filter query (roles st))));
                  total = int (length (filter query (roles st)))
              in Inr (Envelope items total p l \<lceil>real_of_int total / real_of_int l\<rceil>))
           else Inr (Plain (sort_desc role_createdAt (filter query (roles st))))))"

section \<open>User service\<close>

datatype role_out = RoleId oid | RoleNamed oid string

text \<open>
  A user as handed to the caller: a plain object, whose \<open>password\<close> field may have been
  deleted, and whose \<open>role\<close> is the stored identifier or, once populated, the role's
  identifier and name.
\<close>

record user_out =
  o_id :: oid
  o_username :: string
  o_password :: "string option"
  o_email :: string
  o_fullName :: string
  o_avatarUrl :: string
  o_role :: "role_out option"
  o_status :: bool
  o_isDelete :: bool
  o_createdAt :: int

definition toObject :: "user_doc \<Rightarrow> user_out" where
  "toObject u = \<lparr>o_id = uid u, o_username = username u, o_password = Some (password u),
     o_email = email u, o_fullName = fullName u, o_avatarUrl = avatarUrl u,
     o_role = map_option RoleId (role u), o_status = status u, o_isDelete = isDelete u,
     o_createdAt = createdAt u\<rparr>"

text \<open>\<^verbatim>\<open>.populate('role', 'name')\<close>: a reference with no role behind it becomes null.\<close>

definition populate :: "role_doc list \<Rightarrow> user_out \<Rightarrow> user_out" where
  "populate rs o_v =
     o_v\<lparr>o_role := (case o_role o_v of
                      Some (RoleId i) \<Rightarrow>
                        (case find (\<lambda>r. role_id r = i) rs of
                           None \<Rightarrow> None
                         | Some r \<Rightarrow> Some (RoleNamed i (role_name r)))
                    | other \<Rightarrow> other)\<rparr>"

definition delete_password :: "user_out \<Rightarrow> user_out" where
  "delete_password o_v = o_v\<lparr>o_password := None\<rparr>"

text \<open>A document read with \<open>populate\<close> and \<open>lean\<close>, then stripped of its password.\<close>

definition sanitized :: "store \<Rightarrow> user_doc \<Rightarrow> user_out" where
  "sanitized st u = delete_password (populate (roles st) (toObject u))"

text \<open>
  Modelled from the spec: the schema of \<open>User\<close> is not among the sources. The spec's data
  model makes \<open>username\<close> and \<open>email\<close> unique; the store refuses a write that gives a
  document a username or an email that another document holds, and reports the index it
  violated (the username first).
\<close>

definition unique_violation :: "user_doc list \<Rightarrow> user_doc option \<Rightarrow> user_doc \<Rightarrow> string option" where
  "unique_violation others old new =
     (if (case old of None \<Rightarrow> True | Some u \<Rightarrow> username u \<noteq> username new)
          \<and> list_ex (\<lambda>x. username x = username new) others then Some ''username''
      else if (case old of None \<Rightarrow> True | Some u \<Rightarrow> email u \<noteq> email new)
          \<and> list_ex (\<lambda>x. email x = email new) others then Some ''email''
      else None)"

text \<open>
  The \<open>catch\<close> block of \<open>createUser\<close> and \<open>updateUser\<close>:
  \<^verbatim>\<open>
  if (err && err.code === 11000) {
    const dupField = Object.keys(err.keyPattern || {})[0] || 'field';
    const e = new Error(`${dupField} must be unique`);
    e.status = 409;
    throw e;
  }
  throw err;
  \<close>
\<close>

definition dupField :: "string list option \<Rightarrow> string" where
  "dupField kp = (case kp of Some (k # ks) \<Rightarrow> if k = [] then ''field'' else k | _ \<Rightarrow> ''field'')"

fun on_store_error :: "store_error \<Rightarrow> failure" where
  "on_store_error (DuplicateKey kp) = HttpError 409 (dupField kp @ '' must be unique'')"
| "on_store_error e = StoreFailure e"

text \<open>
  The validation of a role reference, as \<open>createUser\<close> and \<open>updateUser\<close> both do it, outside
  their \<open>try\<close> block: a cast error of \<open>Role.findById\<close> goes to the caller as it is.
\<close>

definition validate_role :: "lib \<Rightarrow> store \<Rightarrow> jsval \<Rightarrow> failure + oid option" where
  "validate_role lib st role_v =
     (if truthy role_v then
        (if \<not> isValidObjectId lib role_v then Inl (HttpError 400 ''Invalid role id'')
         else (case castObjectId lib role_v of
                 None \<Rightarrow> Inl (StoreFailure CastFailed)
               | Some i \<Rightarrow>
                   (case find (\<lambda>r. role_id r = i) (roles st) of
                      None \<Rightarrow> Inl (HttpError 404 ''Role not found'')
                    | Some roleDoc \<Rightarrow> Inr (Some (role_id roleDoc)))))
      else Inr None)"

text \<open>\<^verbatim>\<open>User.create\<close>: cast, check the unique indexes, insert.\<close>

definition User_create :: "lib \<Rightarrow> store \<Rightarrow> oid \<Rightarrow> int \<Rightarrow> string \<Rightarrow> string \<Rightarrow> string
    \<Rightarrow> jsval \<Rightarrow> jsval \<Rightarrow> oid option \<Rightarrow> bool \<Rightarrow> store_error + (user_doc \<times> store)" where
  "User_create lib st new_id now un pw em fn av r s =
     (case (castString lib (JStr un), castString lib (JStr pw), castString lib (JStr em),
            castString lib fn, castString lib av) of
        (Some un', Some pw', Some em', Some fn', Some av') \<Rightarrow>
          (let doc = \<lparr>uid = new_id, username = un', password = pw', email = em',
                      fullName = fn', avatarUrl = av', role = r, status = s,
                      isDelete = False, createdAt = now\<rparr>
           in case unique_violation (users st) None doc of
                Some k \<Rightarrow> Inl (DuplicateKey (Some [k]))
              | None \<Rightarrow> Inr (doc, st\<lparr>users := users st @ [doc]\<rparr>))
      | _ \<Rightarrow> Inl CastFailed)"

text \<open>
  \<open>createUser\<close>. The identifier and the creation date of the new document come from the
  store; they are arguments here.
\<close>

definition createUser :: "lib \<Rightarrow> store \<Rightarrow> oid \<Rightarrow> int \<Rightarrow> jsobj \<Rightarrow> failure + (user_out \<times> store)" where
  "createUser lib st new_id now payload =
     (let username_v = payload ''username'';
          password_v = payload ''password'';
          email_v = payload ''email'';
          fullName_v = (if payload ''fullName'' = Undefined then JStr [] else payload ''fullName'');
          avatarUrl_v = (if payload ''avatarUrl'' = Undefined then JStr [] else payload ''avatarUrl'');
          role_v = payload ''role'';
          status_v = payload ''status''
      in if \<not> truthy username_v \<or> \<not> truthy password_v \<or> \<not> truthy email_v
         then Inl (HttpError 400 ''username, password, and email are required'')
         else
           (case validate_role lib st role_v of
              Inl e \<Rightarrow> Inl e
            | Inr roleId \<Rightarrow>
                (let hashed = bcrypt_hash lib (js_String password_v) in
                 case User_create lib st new_id now
                        (js_trim (js_String username_v)) hashed (js_trim (js_String email_v))
                        fullName_v avatarUrl_v roleId
                        (case status_v of JBool b \<Rightarrow> b | _ \<Rightarrow> False) of
                   Inl err \<Rightarrow> Inl (on_store_error err)
                 | Inr (doc, st') \<Rightarrow> Inr (delete_password (toObject doc), st'))))"

text \<open>The query object of \<open>getAllUsers\<close>.\<close>

definition user_query :: "lib \<Rightarrow> jsval \<Rightarrow> jsval \<Rightarrow> store_error + (user_doc \<Rightarrow> bool)" where
  "user_query lib username_v fullName_v =
     (case (if truthy username_v then regex_i lib (js_String username_v) else Some (\<lambda>s. True)) of
        None \<Rightarrow> Inl InvalidRegex
      | Some mu \<Rightarrow>
          (case (if truthy fullName_v then regex_i lib (js_String fullName_v) else Some (\<lambda>s. True)) of
             None \<Rightarrow> Inl InvalidRegex
           | Some mf \<Rightarrow> Inr (\<lambda>u. \<not> isDelete u \<and> mu (username u) \<and> mf (fullName u))))"

definition getAllUsers :: "lib \<Rightarrow> store \<Rightarrow> jsval \<Rightarrow> jsval \<Rightarrow> jsval \<Rightarrow> jsval
    \<Rightarrow> failure + user_out listing" where
  "getAllUsers lib st page_v limit_v username_v fullName_v =
     (case user_query lib username_v fullName_v of
        Inl e \<Rightarrow> Inl (StoreFailure e)
      | Inr query \<Rightarrow>
          (let hasPaging = (truthy page_v \<or> truthy limit_v) in
           if hasPaging then
             (let p = toInt page_v 1;
                  l = toInt limit_v 10;
                  items = take (nat l) (drop (nat ((p - 1) * l))
                            (map (populate (roles st) \<circ> toObject)
                               (sort_desc createdAt (filter query (users st)))));
                  total = int (length (filter query (users st)))
              in Inr (Envelope (map delete_password items) total p l
                        \<lceil>real_of_int total / real_of_int l\<rceil>))
           else Inr (Plain (map delete_password
                       (map (populate (roles st) \<circ> toObject)
                          (sort_desc createdAt (filter query (users st))))))))"

definition getUserByUsername :: "lib \<Rightarrow> store \<Rightarrow> jsval \<Rightarrow> failure + user_out option" where
  "getUserByUsername lib st username_v =
     (if \<not> truthy username_v then Inr None
      else (case castString lib username_v of
              None \<Rightarrow> Inl (StoreFailure CastFailed)
            | Some n \<Rightarrow>
                Inr (map_option (sanitized st)
                       (find (\<lambda>u. username u = n \<and> isDelete u = False) (users st)))))"

definition getUserById :: "lib \<Rightarrow> store \<Rightarrow> jsval \<Rightarrow> failure + user_out option" where
  "getUserById lib st id_v =
     (if \<not> isValidObjectId lib id_v then Inr None
      else (case castObjectId lib id_v of
              None \<Rightarrow> Inl (StoreFailure CastFailed)
            | Some i \<Rightarrow> Inr (map_option (sanitized st) (find (\<lambda>u. uid u = i) (users st)))))"

text \<open>
  The update of the first document that a condition selects (\<open>findByIdAndUpdate\<close>,
  \<open>findOneAndUpdate\<close>, with \<open>new: true\<close>): the document that is returned is the updated one.
\<close>

fun modify_first :: "('a \<Rightarrow> bool) \<Rightarrow> ('a \<Rightarrow> 'a) \<Rightarrow> 'a list \<Rightarrow> 'a list" where
  "modify_first P f [] = []"
| "modify_first P f (x # xs) = (if P x then f x # xs else x # modify_first P f xs)"

definition find_and_update :: "(user_doc \<Rightarrow> bool) \<Rightarrow> (user_doc \<Rightarrow> user_doc) \<Rightarrow> store
    \<Rightarrow> store_error + (user_doc option \<times> store)" where
  "find_and_update P f st =
     (case find P (users st) of
        None \<Rightarrow> Inr (None, st)
      | Some u \<Rightarrow>
          (case unique_violation (remove1 u (users st)) (Some u) (f u) of
             Some k \<Rightarrow> Inl (DuplicateKey (Some [k]))
           | None \<Rightarrow> Inr (Some (f u), st\<lparr>users := modify_first P f (users st)\<rparr>)))"

text \<open>
  \<^verbatim>\<open>
  const toSet = {};
  const allowed = ['fullName', 'avatarUrl', 'status', 'role', 'email', 'username', 'password'];
  for (const k of allowed) {
    if (updates[k] !== undefined) toSet[k] = updates[k];
  }
  \<close>
\<close>

definition allowed :: "string list" where
  "allowed = [''fullName'', ''avatarUrl'', ''status'', ''role'', ''email'', ''username'', ''password'']"

definition pick_allowed :: "jsobj \<Rightarrow> jsobj" where
  "pick_allowed updates =
     foldl (\<lambda>toSet k. if updates k \<noteq> Undefined then toSet(k := updates k) else toSet)
       empty_obj allowed"

text \<open>
  An update \<open>{ $set: obj }\<close> after the cast: for each path of the schema, the value to write
  if \<open>obj\<close> has one. The store writes whatever path the object names: the choice of the
  paths is the caller's. A name that is no path of the schema is dropped by Mongoose.
\<close>

record user_set =
  set_fullName :: "string option"
  set_avatarUrl :: "string option"
  set_status :: "bool option"
  set_role :: "oid option option"
  set_email :: "string option"
  set_username :: "string option"
  set_password :: "string option"
  set_isDelete :: "bool option"
  set_createdAt :: "int option"
  set_id :: "oid option"

definition no_set :: user_set where
  "no_set = \<lparr>set_fullName = None, set_avatarUrl = None, set_status = None, set_role = None,
     set_email = None, set_username = None, set_password = None, set_isDelete = None,
     set_createdAt = None, set_id = None\<rparr>"

definition cast_path :: "(jsval \<Rightarrow> 'a option) \<Rightarrow> jsval \<Rightarrow> 'a option option" where
  "cast_path c v = (if v = Undefined then Some None else map_option Some (c v))"

definition cast_update :: "lib \<Rightarrow> jsobj \<Rightarrow> oid option \<Rightarrow> user_set option" where
  "cast_update lib toSet roleId =
     (case (cast_path (castString lib) (toSet ''fullName''),
            cast_path (castString lib) (toSet ''avatarUrl''),
            cast_path (castBoolean lib) (toSet ''status''),
            (case roleId of Some i \<Rightarrow> Some (Some (Some i))
                          | None \<Rightarrow> cast_path (castRef lib) (toSet ''role'')),
            cast_path (castString lib) (toSet ''email''),
            cast_path (castString lib) (toSet ''username''),
            cast_path (castString lib) (toSet ''password''),
            cast_path (castBoolean lib) (toSet ''isDelete''),
            cast_path (castDate lib) (toSet ''createdAt''),
            cast_path (castObjectId lib) (toSet ''_id'')) of
        (Some fn, Some av, Some s, Some r, Some em, Some un, Some pw, Some del, Some cr, Some i) \<Rightarrow>
          Some \<lparr>set_fullName = fn, set_avatarUrl = av, set_status = s, set_role = r,
                set_email = em, set_username = un, set_password = pw, set_isDelete = del,
                set_createdAt = cr, set_id = i\<rparr>
      | _ \<Rightarrow> None)"

definition apply_set :: "user_set \<Rightarrow> user_doc \<Rightarrow> user_doc" where
  "apply_set s u =
     u\<lparr>fullName := (case set_fullName s of None \<Rightarrow> fullName u | Some v \<Rightarrow> v),
       avatarUrl := (case set_avatarUrl s of None \<Rightarrow> avatarUrl u | Some v \<Rightarrow> v),
       status := (case set_status s of None \<Rightarrow> status u | Some v \<Rightarrow> v),
       role := (case set_role s of None \<Rightarrow> role u | Some v \<Rightarrow> v),
       email := (case set_email s of None \<Rightarrow> email u | Some v \<Rightarrow> v),
       username := (case set_username s of None \<Rightarrow> username u | Some v \<Rightarrow> v),
       password := (case set_password s of None \<Rightarrow> password u | Some v \<Rightarrow> v),
       isDelete := (case set_isDelete s of None \<Rightarrow> isDelete u | Some v \<Rightarrow> v),
       createdAt := (case set_createdAt s of None \<Rightarrow> createdAt u | Some v \<Rightarrow> v)\<rparr>"

text \<open>
  The update of the first document that a condition selects, by a \<open>$set\<close>. The store does
  not let \<open>_id\<close> change.
\<close>

definition find_and_set :: "(user_doc \<Rightarrow> bool) \<Rightarrow> user_set \<Rightarrow> store
    \<Rightarrow> store_error + (user_doc option \<times> store)" where
  "find_and_set P s st =
     (case find P (users st) of
        None \<Rightarrow> Inr (None, st)
      | Some u \<Rightarrow>
          if (case set_id s of None \<Rightarrow> False | Some i \<Rightarrow> i \<noteq> uid u) then Inl ImmutableField
          else find_and_update P (apply_set s) st)"

text \<open>\<^verbatim>\<open>User.findByIdAndUpdate(id, { $set: toSet }, { new: true })\<close>.\<close>

definition User_findByIdAndUpdate :: "lib \<Rightarrow> store \<Rightarrow> jsval \<Rightarrow> jsobj \<Rightarrow> oid option
    \<Rightarrow> store_error + (user_doc option \<times> store)" where
  "User_findByIdAndUpdate lib st id_v toSet roleId =
     (case castObjectId lib id_v of
        None \<Rightarrow> Inl CastFailed
      | Some i \<Rightarrow>
          (case cast_update lib toSet roleId of
             None \<Rightarrow> Inl CastFailed
           | Some s \<Rightarrow> find_and_set (\<lambda>u. uid u = i) s st))"

text \<open>
  \<^verbatim>\<open>
  if (toSet.password) {
    toSet.password = await bcrypt.hash(String(toSet.password), 10);
  }
  \<close>
\<close>

definition hash_password :: "lib \<Rightarrow> jsobj \<Rightarrow> jsobj" where
  "hash_password lib toSet =
     (if truthy (toSet ''password'')
      then toSet(''password'' := JStr (bcrypt_hash lib (js_String (toSet ''password''))))
      else toSet)"

definition updateUser :: "lib \<Rightarrow> store \<Rightarrow> jsval \<Rightarrow> jsobj
    \<Rightarrow> failure + (user_out option \<times> store)" where
  "updateUser lib st id_v updates =
     (if \<not> isValidObjectId lib id_v then Inr (None, st)
      else
        (let toSet = pick_allowed updates in
         case validate_role lib st (toSet ''role'') of
           Inl e \<Rightarrow> Inl e
         | Inr roleId \<Rightarrow>
             (case User_findByIdAndUpdate lib st id_v (hash_password lib toSet) roleId of
                Inl err \<Rightarrow> Inl (on_store_error err)
              | Inr (doc, st') \<Rightarrow> Inr (map_option (sanitized st') doc, st'))))"

definition softDeleteUser :: "lib \<Rightarrow> store \<Rightarrow> jsval \<Rightarrow> failure + (user_out option \<times> store)" where
  "softDeleteUser lib st id_v =
     (if \<not> isValidObjectId lib id_v then Inr (None, st)
      else (case castObjectId lib id_v of
              None \<Rightarrow> Inl (StoreFailure CastFailed)
            | Some i \<Rightarrow>
                (case find_and_set (\<lambda>u. uid u = i) (no_set\<lparr>set_isDelete := Some True\<rparr>) st of
                   Inl err \<Rightarrow> Inl (StoreFailure err)
                 | Inr (doc, st') \<Rightarrow> Inr (map_option (sanitized st') doc, st'))))"

definition verifyUser :: "lib \<Rightarrow> store \<Rightarrow> jsval \<Rightarrow> jsval \<Rightarrow> failure + (user_out option \<times> store)" where
  "verifyUser lib st email_v username_v =
     (if \<not> truthy email_v \<or> \<not> truthy username_v then Inr (None, st)
      else (case (castString lib email_v, castString lib username_v) of
              (Some e, Some n) \<Rightarrow>
                (case find_and_update (\<lambda>u. email u = e \<and> username u = n \<and> isDelete u = False)
                        (\<lambda>u. u\<lparr>status := True\<rparr>) st of
                   Inl err \<Rightarrow> Inl (StoreFailure err)
                 | Inr (doc, st') \<Rightarrow> Inr (map_option (sanitized st') doc, st'))
            | _ \<Rightarrow> Inl (StoreFailure CastFailed)))"

section \<open>A small library and store\<close>

text \<open>
  Concrete values to run the services on: identifiers are the strings of 24 characters,
  strings cast to themselves, and the hash puts a mark in front of its argument.
\<close>

definition lib0 :: lib where
  "lib0 = \<lparr>isValidObjectId = (\<lambda>v. case v of JStr s \<Rightarrow> length s = 24 | _ \<Rightarrow> False),
           castObjectId = (\<lambda>v. case v of JStr s \<Rightarrow> Some s | _ \<Rightarrow> None),
           bcrypt_hash = (\<lambda>s. ''$2b$10$'' @ s),
           castString = (\<lambda>v. case v of JStr s \<Rightarrow> Some s | JNum n \<Rightarrow> Some (js_String v)
                                      | JBool b \<Rightarrow> Some (js_String v) | _ \<Rightarrow> None),
           castBoolean = (\<lambda>v. case v of JBool b \<Rightarrow> Some b | _ \<Rightarrow> None),
           castRef = (\<lambda>v. case v of Null \<Rightarrow> Some None | _ \<Rightarrow> None),
           castDate = (\<lambda>v. case v of JNum n \<Rightarrow> Some n | _ \<Rightarrow> None),
           pcre = (\<lambda>p. None)\<rparr>"

text \<open>The same library, but one that takes every number for a valid identifier.\<close>

definition lib_num :: lib where
  "lib_num = lib0\<lparr>isValidObjectId :=
     (\<lambda>v. case v of JStr s \<Rightarrow> length s = 24 | JNum n \<Rightarrow> True | _ \<Rightarrow> False)\<rparr>"

definition admin_role :: role_doc where
  "admin_role = \<lparr>role_id = ''aaaaaaaaaaaaaaaaaaaaaaaa'', role_name = ''Admin'',
                 role_isDelete = False, role_createdAt = 5\<rparr>"

definition guest_role :: role_doc where
  "guest_role = \<lparr>role_id = ''bbbbbbbbbbbbbbbbbbbbbbbb'', role_name = ''abc'',
                 role_isDelete = False, role_createdAt = 7\<rparr>"

definition alice :: user_doc where
  "alice = \<lparr>uid = ''111111111111111111111111'', username = ''alice'', password = ''$2b$10$pw1'',
            email = ''a@x.com'', fullName = ''Alice A'', avatarUrl = [],
            role = Some ''aaaaaaaaaaaaaaaaaaaaaaaa'', status = False, isDelete = False,
            createdAt = 10\<rparr>"

definition bob :: user_doc where
  "bob = \<lparr>uid = ''222222222222222222222222'', username = ''bob'', password = ''$2b$10$pw2'',
          email = ''b@x.com'', fullName = ''Bob B'', avatarUrl = [],
          role = None, status = False, isDelete = True, createdAt = 20\<rparr>"

definition carol :: user_doc where
  "carol = \<lparr>uid = ''333333333333333333333333'', username = ''carol'', password = ''$2b$10$pw3'',
            email = ''c@x.com'', fullName = ''Carol C'', avatarUrl = [],
            role = None, status = False, isDelete = False, createdAt = 30\<rparr>"

definition store0 :: store where
  "store0 = \<lparr>users = [alice, bob, carol], roles = [admin_role, guest_role]\<rparr>"

definition dave_payload :: jsobj where
  "dave_payload = empty_obj(''username'' := JStr ''dave'', ''password'' := JStr ''pw4'',
     ''email'' := JStr ''d@x.com'', ''status'' := JStr ''true'')"

definition id_alice :: jsval where
  "id_alice = JStr ''111111111111111111111111''"

definition id_bob :: jsval where
  "id_bob = JStr ''222222222222222222222222''"

text \<open>
  The services compute the page, the limit, the number of records to skip and the number
  of pages with JavaScript's numbers. Below \<open>2^53\<close> these are the integers, and the
  arithmetic of the services is the arithmetic of the integers.
\<close>

definition in_exact_range :: "int \<Rightarrow> int \<Rightarrow> nat \<Rightarrow> bool" where
  "in_exact_range p l t = (p < 2 ^ 53 \<and> l < 2 ^ 53 \<and> (p - 1) * l < 2 ^ 53 \<and> int t < 2 ^ 53)"


definition flagged_update :: jsobj where
  "flagged_update = empty_obj(''isDelete'' := JBool True, ''fullName'' := JStr ''X'')"

definition alice_again :: jsobj where
  "alice_again = empty_obj(''username'' := JStr '' alice '', ''password'' := JStr ''pw'',
     ''email'' := JStr ''z@x.com'')"

definition same_email :: jsobj where
  "same_email = empty_obj(''username'' := JStr ''zoe'', ''password'' := JStr ''pw'',
     ''email'' := JStr ''a@x.com'')"

definition rename_to_carol :: jsobj where
  "rename_to_carol = empty_obj(''username'' := JStr ''carol'')"

definition carol_name_set :: user_set where
  "carol_name_set = no_set\<lparr>set_username := Some ''carol''\<rparr>"

definition dave_again :: jsobj where
  "dave_again = empty_obj(''username'' := JStr ''dave'', ''password'' := JStr ''other'',
     ''email'' := JStr ''dave2@x.com'')"

section \<open>Properties\<close>

subsection \<open>Sums and the first match of a list\<close>

lemma not_isl_projr: "\<not> isl x \<Longrightarrow> x = Inr (projr x)"
  by (cases x) auto

lemma not_isl_pair: "\<not> isl x \<Longrightarrow> x = Inr (fst (projr x), snd (projr x))"
  by (cases x) auto

lemma not_isl_some:
  "\<not> isl x \<Longrightarrow> fst (projr x) \<noteq> None \<Longrightarrow> x = Inr (Some (the (fst (projr x))), snd (projr x))"
  by (cases x) auto

subsection \<open>The password is deleted from every value that is returned\<close>

lemma password_sanitized: "o_password (sanitized st u) = None"
  by (simp add: sanitized_def delete_password_def)

lemma createUser_password:
  "createUser lib st new_id now payload = Inr (out, st') \<Longrightarrow> o_password out = None"
  unfolding createUser_def Let_def
  by (auto simp: delete_password_def split: if_splits sum.splits prod.splits)

lemma getAllUsers_password:
  "getAllUsers lib st pv lv uv fv = Inr r \<Longrightarrow> x \<in> set (items_of r) \<Longrightarrow> o_password x = None"
  unfolding getAllUsers_def Let_def
  by (auto simp: delete_password_def split: if_splits sum.splits)

lemma getUserByUsername_password:
  "getUserByUsername lib st v = Inr (Some out) \<Longrightarrow> o_password out = None"
  unfolding getUserByUsername_def
  by (auto simp: password_sanitized split: if_splits option.splits)

lemma getUserById_password:
  "getUserById lib st v = Inr (Some out) \<Longrightarrow> o_password out = None"
  unfolding getUserById_def
  by (auto simp: password_sanitized split: if_splits option.splits)

lemma updateUser_password:
  "updateUser lib st v upd = Inr (Some out, st') \<Longrightarrow> o_password out = None"
  unfolding updateUser_def Let_def
  by (auto simp: password_sanitized split: if_splits sum.splits option.splits prod.splits)

lemma softDeleteUser_password:
  "softDeleteUser lib st v = Inr (Some out, st') \<Longrightarrow> o_password out = None"
  unfolding softDeleteUser_def
  by (auto simp: password_sanitized split: if_splits sum.splits option.splits prod.splits)

lemma verifyUser_password:
  "verifyUser lib st e n = Inr (Some out, st') \<Longrightarrow> o_password out = None"
  unfolding verifyUser_def
  by (auto simp: password_sanitized split: if_splits sum.splits option.splits prod.splits)

text \<open>
  Claim C1. Whatever the library, the store and the arguments, a user that one of
  \<open>createUser\<close>, \<open>getAllUsers\<close>, \<open>getUserByUsername\<close>, \<open>getUserById\<close>, \<open>updateUser\<close>,
  \<open>softDeleteUser\<close> and \<open>verifyUser\<close> returns has no \<open>password\<close> field.
\<close>

theorem password_never_returned:
  "(createUser lib st new_id now payload = Inr (created, st_c) \<longrightarrow> o_password created = None)
   \<and> (getAllUsers lib st pv lv uv fv = Inr listed
        \<longrightarrow> (\<forall>x \<in> set (items_of listed). o_password x = None))
   \<and> (getUserByUsername lib st nv = Inr (Some by_name) \<longrightarrow> o_password by_name = None)
   \<and> (getUserById lib st iv = Inr (Some by_id) \<longrightarrow> o_password by_id = None)
   \<and> (updateUser lib st iv upd = Inr (Some updated, st_u) \<longrightarrow> o_password updated = None)
   \<and> (softDeleteUser lib st iv = Inr (Some deleted, st_d) \<longrightarrow> o_password deleted = None)
   \<and> (verifyUser lib st ev nv = Inr (Some verified, st_v) \<longrightarrow> o_password verified = None)"
proof (intro conjI impI ballI)
  show "o_password created = None"
    if "createUser lib st new_id now payload = Inr (created, st_c)"
    using that by (rule createUser_password)
  show "o_password x = None"
    if "getAllUsers lib st pv lv uv fv = Inr listed" and "x \<in> set (items_of listed)" for x
    using that by (rule getAllUsers_password)
  show "o_password by_name = None" if "getUserByUsername lib st nv = Inr (Some by_name)"
    using that by (rule getUserByUsername_password)
  show "o_password by_id = None" if "getUserById lib st iv = Inr (Some by_id)"
    using that by (rule getUserById_password)
  show "o_password updated = None" if "updateUser lib st iv upd = Inr (Some updated, st_u)"
    using that by (rule updateUser_password)
  show "o_password deleted = None" if "softDeleteUser lib st iv = Inr (Some deleted, st_d)"
    using that by (rule softDeleteUser_password)
  show "o_password verified = None" if "verifyUser lib st ev nv = Inr (Some verified, st_v)"
    using that by (rule verifyUser_password)
qed

theorem password_never_returned_witness:
  "\<not> isl (createUser lib0 store0 ''444444444444444444444444'' 40 dave_payload)
   \<and> o_password (fst (projr (createUser lib0 store0 ''444444444444444444444444'' 40 dave_payload))) = None
   \<and> length (items_of (projr (getAllUsers lib0 store0 Undefined Undefined Undefined Undefined))) = 2
   \<and> list_all (\<lambda>x. o_password x = None)
        (items_of (projr (getAllUsers lib0 store0 Undefined Undefined Undefined Undefined)))
   \<and> getUserByUsername lib0 store0 (JStr ''alice'') = Inr (Some (sanitized store0 alice))
   \<and> o_password (sanitized store0 alice) = None
   \<and> getUserById lib0 store0 id_alice = Inr (Some (sanitized store0 alice))
   \<and> fst (projr (updateUser lib0 store0 id_alice flagged_update)) \<noteq> None
   \<and> o_password (the (fst (projr (updateUser lib0 store0 id_alice flagged_update)))) = None
   \<and> fst (projr (softDeleteUser lib0 store0 id_alice)) \<noteq> None
   \<and> o_password (the (fst (projr (softDeleteUser lib0 store0 id_alice)))) = None
   \<and> fst (projr (verifyUser lib0 store0 (JStr ''a@x.com'') (JStr ''alice''))) \<noteq> None
   \<and> o_password (the (fst (projr (verifyUser lib0 store0 (JStr ''a@x.com'') (JStr ''alice''))))) = None"
proof -
  let ?c = "createUser lib0 store0 ''444444444444444444444444'' 40 dave_payload"
  let ?l = "getAllUsers lib0 store0 Undefined Undefined Undefined Undefined"
  let ?g = "getUserById lib0 store0 id_alice"
  let ?u = "updateUser lib0 store0 id_alice flagged_update"
  let ?d = "softDeleteUser lib0 store0 id_alice"
  let ?v = "verifyUser lib0 store0 (JStr ''a@x.com'') (JStr ''alice'')"
  note T = password_never_returned [where lib = lib0 and st = store0
      and new_id = "''444444444444444444444444''" and now = 40 and payload = dave_payload
      and created = "fst (projr ?c)" and st_c = "snd (projr ?c)"
      and pv = Undefined and lv = Undefined and uv = Undefined and fv = Undefined
      and listed = "projr ?l" and iv = id_alice and by_id = "sanitized store0 alice"
      and nv = "JStr ''alice''" and by_name = "sanitized store0 alice"
      and upd = flagged_update and updated = "the (fst (projr ?u))" and st_u = "snd (projr ?u)"
      and deleted = "the (fst (projr ?d))" and st_d = "snd (projr ?d)"
      and ev = "JStr ''a@x.com''" and verified = "the (fst (projr ?v))" and st_v = "snd (projr ?v)"]
  have c: "\<not> isl ?c" by code_simp
  have l: "\<not> isl ?l" by code_simp
  have n: "length (items_of (projr ?l)) = 2" by code_simp
  have b: "getUserByUsername lib0 store0 (JStr ''alice'') = Inr (Some (sanitized store0 alice))"
    by code_simp
  have g: "?g = Inr (Some (sanitized store0 alice))" by code_simp
  have u: "\<not> isl ?u" "fst (projr ?u) \<noteq> None" by code_simp+
  have d: "\<not> isl ?d" "fst (projr ?d) \<noteq> None" by code_simp+
  have v: "\<not> isl ?v" "fst (projr ?v) \<noteq> None" by code_simp+
  from T not_isl_pair [OF c] have 1: "o_password (fst (projr ?c)) = None" by blast
  from T not_isl_projr [OF l] have 2: "\<forall>x \<in> set (items_of (projr ?l)). o_password x = None"
    by blast
  from T b have 3: "o_password (sanitized store0 alice) = None" by blast
  from T g have 4: "o_password (sanitized store0 alice) = None" by blast
  from T not_isl_some [OF u] have 5: "o_password (the (fst (projr ?u))) = None" by blast
  from T not_isl_some [OF d] have 6: "o_password (the (fst (projr ?d))) = None" by blast
  from T not_isl_some [OF v] have 7: "o_password (the (fst (projr ?v))) = None" by blast
  from c 1 n 2 b 3 g 4 u(2) 5 d(2) 6 v(2) 7 show ?thesis by (simp add: list_all_iff)
qed

subsection \<open>The status of a created user\<close>

text \<open>
  Claim C10. When \<open>createUser\<close> succeeds, the status of the created record, in the value
  returned and in the store, is true exactly when the payload's \<open>status\<close> is the boolean
  \<open>true\<close>; a string, a number or any other value gives false.
\<close>

theorem createUser_status_boolean:
  "createUser lib st new_id now payload = Inr (out, st') \<Longrightarrow>
     o_status out = (payload ''status'' = JBool True)
     \<and> (\<exists>d. users st' = users st @ [d] \<and> status d = (payload ''status'' = JBool True))"
  unfolding createUser_def User_create_def Let_def
  by (auto simp: delete_password_def toObject_def
           split: if_splits sum.splits prod.splits option.splits jsval.splits)

theorem createUser_status_boolean_witness:
  "\<not> isl (createUser lib0 store0 ''444444444444444444444444'' 40 dave_payload)
   \<and> dave_payload ''status'' = JStr ''true''
   \<and> o_status (fst (projr (createUser lib0 store0 ''444444444444444444444444'' 40 dave_payload))) = False
   \<and> \<not> isl (createUser lib0 store0 ''444444444444444444444444'' 40
               (dave_payload(''status'' := JBool True)))
   \<and> o_status (fst (projr (createUser lib0 store0 ''444444444444444444444444'' 40
               (dave_payload(''status'' := JBool True))))) = True"
proof -
  let ?c = "createUser lib0 store0 ''444444444444444444444444'' 40 dave_payload"
  let ?d = "createUser lib0 store0 ''444444444444444444444444'' 40
              (dave_payload(''status'' := JBool True))"
  have c: "\<not> isl ?c" by code_simp
  have d: "\<not> isl ?d" by code_simp
  have s: "dave_payload ''status'' = JStr ''true''" by (simp add: dave_payload_def)
  from createUser_status_boolean [OF not_isl_pair [OF c]] s
  have 1: "o_status (fst (projr ?c)) = False" by simp
  from createUser_status_boolean [OF not_isl_pair [OF d]]
  have 2: "o_status (fst (projr ?d)) = True" by simp
  from c d s 1 2 show ?thesis by simp
qed

subsection \<open>Soft-deleted users\<close>


lemma find_by_key:
  "distinct (map f xs) \<Longrightarrow> u \<in> set xs \<Longrightarrow> find (\<lambda>x. f x = f u) xs = Some u"
  by (induction xs) auto

lemma find_none_iff: "(find P xs = None) = (\<forall>x \<in> set xs. \<not> P x)"
  by (induction xs) auto

lemma same_key_same_doc:
  "distinct (map f xs) \<Longrightarrow> x \<in> set xs \<Longrightarrow> y \<in> set xs \<Longrightarrow> f x = f y \<Longrightarrow> x = y"
  by (meson distinct_map inj_on_eq_iff)

lemma set_sort_desc: "set (sort_desc f xs) = set xs"
  by (simp add: sort_desc_def)

lemma user_query_live: "user_query lib uv fv = Inr q \<Longrightarrow> q u \<Longrightarrow> \<not> isDelete u"
  by (auto simp: user_query_def split: option.splits if_splits)

lemma sanitized_fields:
  "o_id (sanitized st u) = uid u" "o_isDelete (sanitized st u) = isDelete u"
  "o_status (sanitized st u) = status u" "o_username (sanitized st u) = username u"
  "o_email (sanitized st u) = email u" "o_fullName (sanitized st u) = fullName u"
  "o_createdAt (sanitized st u) = createdAt u"
  by (simp_all add: sanitized_def delete_password_def populate_def toObject_def)

lemma sanitized_comp:
  "map delete_password (map (populate (roles st) \<circ> toObject) ys) = map (sanitized st) ys"
  by (simp add: sanitized_def)

lemma getAllUsers_items:
  assumes "getAllUsers lib st pv lv uv fv = Inr listed" and "x \<in> set (items_of listed)"
  shows "\<exists>d \<in> set (users st). \<not> isDelete d \<and> x = sanitized st d"
proof -
  from assms(1) obtain q where q: "user_query lib uv fv = Inr q"
    by (auto simp: getAllUsers_def split: sum.splits)
  let ?ys = "sort_desc createdAt (filter q (users st))"
  have "set (items_of listed) \<subseteq> sanitized st ` set ?ys"
  proof (cases "truthy pv \<or> truthy lv")
    case True
    with assms(1) q have "items_of listed = map delete_password (take (nat (toInt lv 10))
        (drop (nat ((toInt pv 1 - 1) * toInt lv 10)) (map (populate (roles st) \<circ> toObject) ?ys)))"
      by (auto simp: getAllUsers_def Let_def)
    also have "\<dots> = take (nat (toInt lv 10))
        (drop (nat ((toInt pv 1 - 1) * toInt lv 10)) (map (sanitized st) ?ys))"
      by (simp add: take_map drop_map sanitized_def)
    finally show ?thesis
      by (metis (no_types, lifting) set_map set_take_subset set_drop_subset subset_trans)
  next
    case False
    with assms(1) q have "items_of listed = map (sanitized st) ?ys"
      by (auto simp: getAllUsers_def Let_def sanitized_def)
    then show ?thesis by simp
  qed
  with assms(2) obtain d where "d \<in> set ?ys" "x = sanitized st d" by auto
  then show ?thesis using user_query_live [OF q] by (auto simp: set_sort_desc)
qed

lemma getUserByUsername_live:
  "getUserByUsername lib st nv = Inr (Some out) \<Longrightarrow>
     \<exists>d \<in> set (users st). \<not> isDelete d \<and> out = sanitized st d"
  unfolding getUserByUsername_def
  by (auto simp: find_Some_iff split: if_splits option.splits)

text \<open>
  Claim C2. A user record with \<open>isDelete = true\<close> is in no result of \<open>getAllUsers\<close>, whatever
  the filter and the paging, and is never what \<open>getUserByUsername\<close> returns: every user these
  return is a live one, with another identifier. \<open>getUserById\<close> with the record's
  identifier still returns it, with \<open>isDelete\<close> true. Identifiers are unique in the store.
\<close>

theorem soft_deleted_hidden:
  assumes "u \<in> set (users st)" and "isDelete u" and "distinct (map uid (users st))"
  shows "(getAllUsers lib st pv lv uv fv = Inr listed
            \<longrightarrow> (\<forall>x \<in> set (items_of listed). o_id x \<noteq> uid u \<and> \<not> o_isDelete x))
       \<and> (getUserByUsername lib st nv = Inr (Some by_name)
            \<longrightarrow> o_id by_name \<noteq> uid u \<and> \<not> o_isDelete by_name)
       \<and> (isValidObjectId lib iv \<and> castObjectId lib iv = Some (uid u)
            \<longrightarrow> getUserById lib st iv = Inr (Some (sanitized st u))
                \<and> o_id (sanitized st u) = uid u \<and> o_isDelete (sanitized st u))"
proof (intro conjI impI ballI)
  have other: "o_id (sanitized st d) \<noteq> uid u" if "d \<in> set (users st)" "\<not> isDelete d" for d
    using same_key_same_doc [OF assms(3) that(1) assms(1)] that(2) assms(2)
    by (auto simp: sanitized_fields)
  show "o_id x \<noteq> uid u" "\<not> o_isDelete x"
    if "getAllUsers lib st pv lv uv fv = Inr listed" "x \<in> set (items_of listed)" for x
    using getAllUsers_items [OF that] other by (auto simp: sanitized_fields)
  show "o_id by_name \<noteq> uid u" "\<not> o_isDelete by_name"
    if "getUserByUsername lib st nv = Inr (Some by_name)"
    using getUserByUsername_live [OF that] other by (auto simp: sanitized_fields)
  show "getUserById lib st iv = Inr (Some (sanitized st u))"
    if "isValidObjectId lib iv \<and> castObjectId lib iv = Some (uid u)"
    using that find_by_key [OF assms(3) assms(1)] by (simp add: getUserById_def)
  show "o_id (sanitized st u) = uid u" "o_isDelete (sanitized st u)"
    using assms(2) by (simp_all add: sanitized_fields)
qed


theorem soft_deleted_hidden_witness:
  "bob \<in> set (users store0) \<and> isDelete bob \<and> distinct (map uid (users store0))
   \<and> length (items_of (projr (getAllUsers lib0 store0 Undefined Undefined Undefined Undefined))) = 2
   \<and> list_all (\<lambda>x. o_id x \<noteq> uid bob \<and> \<not> o_isDelete x)
        (items_of (projr (getAllUsers lib0 store0 Undefined Undefined Undefined Undefined)))
   \<and> getUserByUsername lib0 store0 (JStr ''bob'') = Inr None
   \<and> getUserByUsername lib0 store0 (JStr ''alice'') = Inr (Some (sanitized store0 alice))
   \<and> o_id (sanitized store0 alice) \<noteq> uid bob
   \<and> getUserById lib0 store0 id_bob = Inr (Some (sanitized store0 bob))
   \<and> o_isDelete (sanitized store0 bob)"
proof -
  let ?l = "getAllUsers lib0 store0 Undefined Undefined Undefined Undefined"
  have h1: "bob \<in> set (users store0)" by (simp add: store0_def)
  have h2: "isDelete bob" by (simp add: bob_def)
  have h3: "distinct (map uid (users store0))" by code_simp
  note T = soft_deleted_hidden [OF h1 h2 h3, where lib = lib0 and pv = Undefined
      and lv = Undefined and uv = Undefined and fv = Undefined and listed = "projr ?l"
      and nv = "JStr ''alice''" and by_name = "sanitized store0 alice" and iv = id_bob]
  have l: "\<not> isl ?l" by code_simp
  have n: "length (items_of (projr ?l)) = 2" by code_simp
  have b: "getUserByUsername lib0 store0 (JStr ''bob'') = Inr None" by code_simp
  have a: "getUserByUsername lib0 store0 (JStr ''alice'') = Inr (Some (sanitized store0 alice))"
    by code_simp
  have v: "isValidObjectId lib0 id_bob \<and> castObjectId lib0 id_bob = Some (uid bob)" by code_simp
  from T not_isl_projr [OF l]
  have 1: "\<forall>x \<in> set (items_of (projr ?l)). o_id x \<noteq> uid bob \<and> \<not> o_isDelete x" by blast
  from T a have 2: "o_id (sanitized store0 alice) \<noteq> uid bob" by blast
  from T v have 3: "getUserById lib0 store0 id_bob = Inr (Some (sanitized store0 bob))
      \<and> o_isDelete (sanitized store0 bob)" by blast
  from h1 h2 h3 n 1 b a 2 3 show ?thesis by (simp add: list_all_iff)
qed

subsection \<open>Lookup by identifier\<close>

text \<open>
  Claim C8, as the code has it. \<open>getUserById\<close> looks the identifier up among all the stored
  users, deleted or not. A value that \<open>isValidObjectId\<close> rejects gives no result, and so does
  a value that is cast to an identifier that no record has: neither is an error. The record
  that has the identifier is returned, sanitized, with the \<open>isDelete\<close> it has in the store.
  Only a value that \<open>isValidObjectId\<close> accepts and that Mongoose then refuses to cast makes
  the call fail, with the cast error of \<open>findById\<close>.
\<close>

theorem getUserById_any_state:
  "(\<not> isValidObjectId lib iv \<longrightarrow> getUserById lib st iv = Inr None)
   \<and> (isValidObjectId lib iv \<and> castObjectId lib iv = Some i
        \<and> (\<forall>x \<in> set (users st). uid x \<noteq> i) \<longrightarrow> getUserById lib st iv = Inr None)
   \<and> (isValidObjectId lib iv \<and> castObjectId lib iv = Some (uid u) \<and> u \<in> set (users st)
        \<and> distinct (map uid (users st))
        \<longrightarrow> getUserById lib st iv = Inr (Some (sanitized st u))
            \<and> o_isDelete (sanitized st u) = isDelete u)
   \<and> (isValidObjectId lib iv \<and> castObjectId lib iv = None
        \<longrightarrow> getUserById lib st iv = Inl (StoreFailure CastFailed))"
proof (intro conjI impI)
  show "getUserById lib st iv = Inr None" if "\<not> isValidObjectId lib iv"
    using that by (simp add: getUserById_def)
  show "getUserById lib st iv = Inr None"
    if "isValidObjectId lib iv \<and> castObjectId lib iv = Some i
        \<and> (\<forall>x \<in> set (users st). uid x \<noteq> i)"
    using that by (simp add: getUserById_def find_none_iff)
  show "getUserById lib st iv = Inr (Some (sanitized st u))"
    if "isValidObjectId lib iv \<and> castObjectId lib iv = Some (uid u) \<and> u \<in> set (users st)
        \<and> distinct (map uid (users st))"
  proof -
    from that have "find (\<lambda>x. uid x = uid u) (users st) = Some u"
      using find_by_key [of uid "users st" u] by blast
    with that show ?thesis by (simp add: getUserById_def)
  qed
  show "o_isDelete (sanitized st u) = isDelete u"
    by (simp add: sanitized_fields)
  show "getUserById lib st iv = Inl (StoreFailure CastFailed)"
    if "isValidObjectId lib iv \<and> castObjectId lib iv = None"
    using that by (simp add: getUserById_def)
qed

theorem getUserById_any_state_witness:
  "\<not> isValidObjectId lib0 (JStr ''42'') \<and> getUserById lib0 store0 (JStr ''42'') = Inr None
   \<and> isValidObjectId lib0 (JStr ''999999999999999999999999'')
   \<and> getUserById lib0 store0 (JStr ''999999999999999999999999'') = Inr None
   \<and> isValidObjectId lib0 id_alice \<and> alice \<in> set (users store0)
   \<and> getUserById lib0 store0 id_alice = Inr (Some (sanitized store0 alice))
   \<and> o_isDelete (sanitized store0 alice) = False
   \<and> isValidObjectId lib_num (JNum 7) \<and> castObjectId lib_num (JNum 7) = None
   \<and> getUserById lib_num store0 (JNum 7) = Inl (StoreFailure CastFailed)"
proof -
  have i: "\<not> isValidObjectId lib0 (JStr ''42'')" by code_simp
  have j: "isValidObjectId lib0 (JStr ''999999999999999999999999'')
      \<and> castObjectId lib0 (JStr ''999999999999999999999999'') = Some ''999999999999999999999999''
      \<and> (\<forall>x \<in> set (users store0). uid x \<noteq> ''999999999999999999999999'')"
    by code_simp
  have a: "isValidObjectId lib0 id_alice \<and> castObjectId lib0 id_alice = Some (uid alice)
      \<and> alice \<in> set (users store0) \<and> distinct (map uid (users store0))"
    by code_simp
  have d: "isDelete alice = False" by (simp add: alice_def)
  have n: "isValidObjectId lib_num (JNum 7) \<and> castObjectId lib_num (JNum 7) = None"
    by code_simp
  note first = getUserById_any_state [THEN conjunct1, THEN mp]
  note second = getUserById_any_state [THEN conjunct2, THEN conjunct1, THEN mp]
  note third = getUserById_any_state [THEN conjunct2, THEN conjunct2, THEN conjunct1, THEN mp]
  note fourth = getUserById_any_state [THEN conjunct2, THEN conjunct2, THEN conjunct2, THEN mp]
  have 1: "getUserById lib0 store0 (JStr ''42'') = Inr None" by (rule first [OF i])
  have 2: "getUserById lib0 store0 (JStr ''999999999999999999999999'') = Inr None"
    by (rule second [OF j])
  from third [OF a] d
  have 3: "getUserById lib0 store0 id_alice = Inr (Some (sanitized store0 alice))
      \<and> o_isDelete (sanitized store0 alice) = False" by simp
  have 4: "getUserById lib_num store0 (JNum 7) = Inl (StoreFailure CastFailed)"
    by (rule fourth [OF n])
  from i j a n 1 2 3 4 show ?thesis by simp
qed

text \<open>
  A stored record with \<open>isDelete = true\<close> that \<open>getUserById\<close> returns: the lookup is not
  restricted to the live users.
\<close>

theorem getUserById_returns_deleted:
  "bob \<in> set (users store0) \<and> isDelete bob
   \<and> isValidObjectId lib0 id_bob \<and> castObjectId lib0 id_bob = Some (uid bob)
   \<and> getUserById lib0 store0 id_bob = Inr (Some (sanitized store0 bob))
   \<and> o_id (sanitized store0 bob) = uid bob
   \<and> o_isDelete (sanitized store0 bob)"
  by code_simp

subsection \<open>Reading an integer\<close>


lemma digit_char_props:
  assumes "d < 10"
  shows "is_digit (digit_char d)" and "digit_val (digit_char d) = int d"
proof -
  from assms have "d \<in> {0, 1, 2, 3, 4, 5, 6, 7, 8, 9}" by auto
  then show "is_digit (digit_char d)" and "digit_val (digit_char d) = int d"
    by (auto simp: digit_char_def is_digit_def digit_val_def)
qed

lemma digits_val_snoc: "digits_val (ds @ [c]) = 10 * digits_val ds + digit_val c"
  by (simp add: digits_val_def)

lemma digits_nonempty: "digits n \<noteq> []"
  by (subst digits.simps) simp

lemma digits_are_digits: "c \<in> set (digits n) \<Longrightarrow> is_digit c"
proof (induction n arbitrary: c rule: digits.induct)
  case (1 n)
  show ?case
  proof (cases "n < 10")
    case True
    with "1.prems" show ?thesis
      by (subst (asm) digits.simps) (simp add: digit_char_props)
  next
    case False
    with "1.prems" have "c \<in> set (digits (n div 10)) \<or> c = digit_char (n mod 10)"
      by (subst (asm) digits.simps) auto
    with False "1.IH" show ?thesis
      by (auto simp: digit_char_props)
  qed
qed

lemma digits_val_digits: "digits_val (digits n) = int n"
proof (induction n rule: digits.induct)
  case (1 n)
  show ?case
  proof (cases "n < 10")
    case True
    then show ?thesis
      by (subst digits.simps) (simp add: digits_val_def digit_char_props)
  next
    case False
    with "1.IH" have "digits_val (digits (n div 10)) = int (n div 10)" by simp
    with False show ?thesis
      by (subst digits.simps) (simp add: digits_val_snoc digit_char_props zdiv_int zmod_int)
  qed
qed

lemma digit_not_space_or_sign:
  "is_digit c \<Longrightarrow> \<not> is_ws c \<and> c \<noteq> CHR ''-'' \<and> c \<noteq> CHR ''+''"
  by (auto simp: is_digit_def is_ws_def)

lemma parse_digits:
  assumes "ds \<noteq> []" and "\<forall>c \<in> set ds. is_digit c"
  shows "takeWhile is_digit ds = ds" and "dropWhile is_ws ds = ds"
    and "hd ds \<noteq> CHR ''-''" and "hd ds \<noteq> CHR ''+''"
  using assms by (cases ds; auto simp: digit_not_space_or_sign)+

lemma parseInt_JNum: "parseInt (JNum n) = Some n"
proof (cases "n < 0")
  case True
  let ?ds = "digits (nat (- n))"
  have tw: "takeWhile is_digit ?ds = ?ds"
    by (rule parse_digits) (auto simp: digits_nonempty digits_are_digits)
  have s: "js_String (JNum n) = CHR ''-'' # ?ds" using True by simp
  have dw: "dropWhile is_ws (CHR ''-'' # ?ds) = CHR ''-'' # ?ds" by (simp add: is_ws_def)
  show ?thesis
    unfolding parseInt_def Let_def s dw
    using True by (simp add: tw digits_nonempty digits_val_digits)
next
  case False
  let ?ds = "digits (nat n)"
  have d: "?ds \<noteq> []" "\<forall>c \<in> set ?ds. is_digit c"
    by (auto simp: digits_nonempty digits_are_digits)
  obtain c r where cr: "?ds = c # r" using d(1) by (cases ?ds) auto
  have s: "js_String (JNum n) = ?ds" using False by simp
  have dw: "dropWhile is_ws ?ds = ?ds" by (rule parse_digits [OF d])
  have tw: "takeWhile is_digit ?ds = ?ds" by (rule parse_digits [OF d])
  have sg: "c \<noteq> CHR ''-''" "c \<noteq> CHR ''+''"
    using parse_digits(3,4) [OF d] cr by simp_all
  have "(case ?ds of [] \<Rightarrow> False | c # r \<Rightarrow> c = CHR ''-'') = False"
    and "(case ?ds of [] \<Rightarrow> [] | c # r \<Rightarrow> if c = CHR ''-'' \<or> c = CHR ''+'' then r else ?ds) = ?ds"
    using sg by (simp_all add: cr)
  then show ?thesis
    unfolding parseInt_def Let_def s dw
    using False by (simp add: tw d(1) digits_val_digits)
qed

lemma toInt_JNum: "toInt (JNum n) d = (if n \<le> 0 then d else n)"
  by (simp add: toInt_def parseInt_JNum)

lemma toInt_positive: "0 < d \<Longrightarrow> 0 < toInt v d"
  by (simp add: toInt_def split: option.splits)

lemma toInt_Undefined: "toInt Undefined d = d"
  by (simp add: toInt_def parseInt_def is_ws_def is_digit_def)

lemma parseInt_digits: "parseInt (JStr (digits k)) = Some (int k)"
  using parseInt_JNum [of "int k"] by (simp add: parseInt_def)

lemma toInt_cases:
  "toInt v d = d \<and> (parseInt v = None \<or> (\<exists>n. parseInt v = Some n \<and> n \<le> 0))
   \<or> (\<exists>n. parseInt v = Some n \<and> 0 < n \<and> toInt v d = n)"
  by (auto simp: toInt_def split: option.splits)


subsection \<open>Paging\<close>

lemma user_query_paging_free:
  "getAllUsers lib st Undefined Undefined uv fv = Inr (Plain us) \<Longrightarrow>
     \<exists>q. user_query lib uv fv = Inr q
        \<and> us = map (sanitized st) (sort_desc createdAt (filter q (users st)))"
  by (auto simp: getAllUsers_def sanitized_def split: sum.splits)

lemma getAllUsers_paged:
  assumes "getAllUsers lib st Undefined Undefined uv fv = Inr (Plain us)"
  shows "getAllUsers lib st pv lv uv fv =
     Inr (if truthy pv \<or> truthy lv
          then Envelope (take (nat (toInt lv 10)) (drop (nat ((toInt pv 1 - 1) * toInt lv 10)) us))
                 (int (length us)) (toInt pv 1) (toInt lv 10)
                 \<lceil>real_of_int (int (length us)) / real_of_int (toInt lv 10)\<rceil>
          else Plain us)"
proof -
  from user_query_paging_free [OF assms] obtain q where q: "user_query lib uv fv = Inr q"
    and us: "us = map (sanitized st) (sort_desc createdAt (filter q (users st)))" by blast
  have len: "length (filter q (users st)) = length us"
    by (simp add: us sort_desc_def)
  have sc: "delete_password \<circ> (populate (roles st) \<circ> toObject) = sanitized st"
    by (rule ext) (simp add: sanitized_def)
  show ?thesis
    unfolding getAllUsers_def Let_def q
    by (simp add: len take_map drop_map us sc)
qed

lemma getAllRoles_paged:
  assumes "getAllRoles lib st nv dv Undefined Undefined = Inr (Plain rs)"
  shows "getAllRoles lib st nv dv pv lv =
     Inr (if truthy pv \<or> truthy lv
          then Envelope (take (nat (toInt lv 10)) (drop (nat ((toInt pv 1 - 1) * toInt lv 10)) rs))
                 (int (length rs)) (toInt pv 1) (toInt lv 10)
                 \<lceil>real_of_int (int (length rs)) / real_of_int (toInt lv 10)\<rceil>
          else Plain rs)"
proof -
  from assms obtain q where q: "role_query lib nv dv = Inr q"
    and rs: "rs = sort_desc role_createdAt (filter q (roles st))"
    by (auto simp: getAllRoles_def split: sum.splits)
  have len: "length (filter q (roles st)) = length rs"
    by (simp add: rs sort_desc_def)
  show ?thesis
    unfolding getAllRoles_def Let_def q
    by (simp add: len) (simp add: rs)
qed

lemma sort_desc_newest_first: "sorted_wrt (\<lambda>a b. f b \<le> f a) (sort_desc f xs)"
proof -
  have "sorted (map (\<lambda>x. - f x) (sort_key (\<lambda>x. - f x) xs))" by (rule sorted_sort_key)
  then show ?thesis by (simp add: sort_desc_def sorted_map)
qed

lemma users_newest_first:
  "getAllUsers lib st Undefined Undefined uv fv = Inr (Plain us) \<Longrightarrow>
     sorted_wrt (\<lambda>a b. o_createdAt b \<le> o_createdAt a) us"
  using sort_desc_newest_first [of createdAt]
  by (auto dest!: user_query_paging_free simp: sorted_wrt_map sanitized_fields)

lemma roles_newest_first:
  "getAllRoles lib st nv dv Undefined Undefined = Inr (Plain rs) \<Longrightarrow>
     sorted_wrt (\<lambda>a b. role_createdAt b \<le> role_createdAt a) rs"
  using sort_desc_newest_first [of role_createdAt]
  by (auto simp: getAllRoles_def split: sum.splits)




lemma window_length: "0 < l \<Longrightarrow> int (length (take (nat l) xs)) \<le> l"
  by simp

text \<open>
  Claim C3, as the code has it. Let the query without paging succeed with the sequence
  \<open>us\<close> (for \<open>getAllRoles\<close>: \<open>rs\<close>), which is ordered newest \<open>createdAt\<close> first. When \<open>page\<close> or
  \<open>limit\<close> is truthy, and the numbers involved are below \<open>2^53\<close>, the same query returns the
  envelope: \<open>page\<close> is \<open>toInt page 1\<close>, \<open>limit\<close> is \<open>toInt limit 10\<close>, \<open>total\<close> is the length of the
  whole sequence, \<open>pages\<close> is \<open>ceil(total / limit)\<close>, and the items are the window of at most
  \<open>limit\<close> records after the first \<open>(page - 1) * limit\<close>. When both are falsy (absent, but also
  an empty string, 0, null or false) the result is the whole sequence with no envelope.
  \<open>toInt\<close> gives a positive number: the default for an absent value, for a value that
  \<open>parseInt\<close> reads no integer from, and for one it reads an integer \<open>\<le> 0\<close> from; the integer
  that \<open>parseInt\<close> reads otherwise, when that is below \<open>2^53\<close>. So a number below \<open>2^53\<close> and a
  string of decimal digits below \<open>2^53\<close> are read as themselves when positive.
\<close>

theorem paging_contract:
  "(getAllUsers lib st Undefined Undefined uv fv = Inr (Plain us) \<longrightarrow>
      sorted_wrt (\<lambda>a b. o_createdAt b \<le> o_createdAt a) us
      \<and> (truthy pv \<or> truthy lv \<longrightarrow>
          in_exact_range (toInt pv 1) (toInt lv 10) (length us) \<longrightarrow>
            getAllUsers lib st pv lv uv fv =
              Inr (Envelope (take (nat (toInt lv 10)) (drop (nat ((toInt pv 1 - 1) * toInt lv 10)) us))
                     (int (length us)) (toInt pv 1) (toInt lv 10)
                     \<lceil>real_of_int (int (length us)) / real_of_int (toInt lv 10)\<rceil>)
            \<and> int (length (take (nat (toInt lv 10))
                               (drop (nat ((toInt pv 1 - 1) * toInt lv 10)) us))) \<le> toInt lv 10)
      \<and> (\<not> truthy pv \<and> \<not> truthy lv \<longrightarrow> getAllUsers lib st pv lv uv fv = Inr (Plain us)))
   \<and> (getAllRoles lib st nv dv Undefined Undefined = Inr (Plain rs) \<longrightarrow>
      sorted_wrt (\<lambda>a b. role_createdAt b \<le> role_createdAt a) rs
      \<and> (truthy pv \<or> truthy lv \<longrightarrow>
          in_exact_range (toInt pv 1) (toInt lv 10) (length rs) \<longrightarrow>
            getAllRoles lib st nv dv pv lv =
              Inr (Envelope (take (nat (toInt lv 10)) (drop (nat ((toInt pv 1 - 1) * toInt lv 10)) rs))
                     (int (length rs)) (toInt pv 1) (toInt lv 10)
                     \<lceil>real_of_int (int (length rs)) / real_of_int (toInt lv 10)\<rceil>)
            \<and> int (length (take (nat (toInt lv 10))
                               (drop (nat ((toInt pv 1 - 1) * toInt lv 10)) rs))) \<le> toInt lv 10)
      \<and> (\<not> truthy pv \<and> \<not> truthy lv \<longrightarrow> getAllRoles lib st nv dv pv lv = Inr (Plain rs)))
   \<and> toInt Undefined 1 = 1 \<and> toInt Undefined 10 = 10
   \<and> (0 < d \<longrightarrow> 0 < toInt v d)
   \<and> (parseInt v = None \<longrightarrow> toInt v d = d)
   \<and> (parseInt v = Some n \<and> n \<le> 0 \<longrightarrow> toInt v d = d)
   \<and> (parseInt v = Some n \<and> 0 < n \<and> n < 2 ^ 53 \<longrightarrow> toInt v d = n)
   \<and> (m \<le> 0 \<longrightarrow> toInt (JNum m) d = d)
   \<and> (0 < m \<and> m < 2 ^ 53 \<longrightarrow> toInt (JNum m) d = m)
   \<and> (0 < k \<and> int k < 2 ^ 53 \<longrightarrow> toInt (JStr (digits k)) d = int k)"
  (is "?U \<and> ?R \<and> ?T")
proof -
  have l: "0 < toInt lv 10" by (simp add: toInt_positive)
  have U: ?U
  proof
    assume a: "getAllUsers lib st Undefined Undefined uv fv = Inr (Plain us)"
    show "sorted_wrt (\<lambda>a b. o_createdAt b \<le> o_createdAt a) us
      \<and> (truthy pv \<or> truthy lv \<longrightarrow>
          in_exact_range (toInt pv 1) (toInt lv 10) (length us) \<longrightarrow>
            getAllUsers lib st pv lv uv fv =
              Inr (Envelope (take (nat (toInt lv 10)) (drop (nat ((toInt pv 1 - 1) * toInt lv 10)) us))
                     (int (length us)) (toInt pv 1) (toInt lv 10)
                     \<lceil>real_of_int (int (length us)) / real_of_int (toInt lv 10)\<rceil>)
            \<and> int (length (take (nat (toInt lv 10))
                               (drop (nat ((toInt pv 1 - 1) * toInt lv 10)) us))) \<le> toInt lv 10)
      \<and> (\<not> truthy pv \<and> \<not> truthy lv \<longrightarrow> getAllUsers lib st pv lv uv fv = Inr (Plain us))"
      using users_newest_first [OF a] getAllUsers_paged [OF a, of pv lv] l
      by auto
  qed
  have R: ?R
  proof
    assume a: "getAllRoles lib st nv dv Undefined Undefined = Inr (Plain rs)"
    show "sorted_wrt (\<lambda>a b. role_createdAt b \<le> role_createdAt a) rs
      \<and> (truthy pv \<or> truthy lv \<longrightarrow>
          in_exact_range (toInt pv 1) (toInt lv 10) (length rs) \<longrightarrow>
            getAllRoles lib st nv dv pv lv =
              Inr (Envelope (take (nat (toInt lv 10)) (drop (nat ((toInt pv 1 - 1) * toInt lv 10)) rs))
                     (int (length rs)) (toInt pv 1) (toInt lv 10)
                     \<lceil>real_of_int (int (length rs)) / real_of_int (toInt lv 10)\<rceil>)
            \<and> int (length (take (nat (toInt lv 10))
                               (drop (nat ((toInt pv 1 - 1) * toInt lv 10)) rs))) \<le> toInt lv 10)
      \<and> (\<not> truthy pv \<and> \<not> truthy lv \<longrightarrow> getAllRoles lib st nv dv pv lv = Inr (Plain rs))"
      using roles_newest_first [OF a] getAllRoles_paged [OF a, of pv lv] l
      by auto
  qed
  have T: ?T
    by (simp add: toInt_Undefined toInt_positive toInt_JNum) (simp add: toInt_def parseInt_digits)
  show ?thesis by (rule conjI [OF U conjI [OF R T]])
qed

theorem paging_contract_witness:
  "getAllUsers lib0 store0 Undefined Undefined Undefined Undefined
     = Inr (Plain [sanitized store0 carol, sanitized store0 alice])
   \<and> in_exact_range (toInt (JStr ''2'') 1) (toInt (JStr ''1'') 10) 2
   \<and> getAllUsers lib0 store0 (JStr ''2'') (JStr ''1'') Undefined Undefined
     = Inr (Envelope [sanitized store0 alice] 2 2 1 2)
   \<and> getAllRoles lib0 store0 Undefined Undefined Undefined Undefined
     = Inr (Plain [guest_role, admin_role])
   \<and> getAllRoles lib0 store0 Undefined Undefined (JStr ''2'') (JStr ''1'')
     = Inr (Envelope [admin_role] 2 2 1 2)
   \<and> parseInt (JStr ''-3'') = Some (- 3) \<and> toInt (JStr ''-3'') 10 = 10
   \<and> parseInt (JStr ''7up'') = Some 7 \<and> toInt (JStr ''7up'') 10 = 7
   \<and> toInt (JNum 1000) 10 = 1000
   \<and> digits 25 = ''25'' \<and> toInt (JStr ''25'') 10 = 25
   \<and> toInt (JStr [CHR 0xA0, CHR ''5'']) 10 = 5"
proof -
  have u: "getAllUsers lib0 store0 Undefined Undefined Undefined Undefined
      = Inr (Plain [sanitized store0 carol, sanitized store0 alice])" by code_simp
  have r: "getAllRoles lib0 store0 Undefined Undefined Undefined Undefined
      = Inr (Plain [guest_role, admin_role])" by code_simp
  have t: "truthy (JStr ''2'') \<or> truthy (JStr ''1'')" by simp
  have p: "toInt (JStr ''2'') 1 = 2" and l: "toInt (JStr ''1'') 10 = 1" by code_simp+
  have e: "in_exact_range (toInt (JStr ''2'') 1) (toInt (JStr ''1'') 10) 2"
    by (simp add: p l in_exact_range_def)
  have e': "in_exact_range 2 1 (Suc (Suc 0))" by (simp add: in_exact_range_def)
  have m: "parseInt (JStr ''-3'') = Some (- 3) \<and> - 3 \<le> (0::int)" by code_simp
  have s: "parseInt (JStr ''7up'') = Some 7 \<and> 0 < (7::int) \<and> (7::int) < 2 ^ 53" by code_simp
  have b: "(0::int) < 1000 \<and> (1000::int) < 2 ^ 53" by simp
  have c: "(0::nat) < 25 \<and> int 25 < 2 ^ 53" by simp
  have g: "digits 25 = ''25''" by code_simp
  have w: "parseInt (JStr [CHR 0xA0, CHR ''5'']) = Some 5 \<and> 0 < (5::int) \<and> (5::int) < 2 ^ 53"
    by code_simp
  note T = paging_contract [where lib = lib0 and st = store0 and uv = Undefined
      and fv = Undefined and nv = Undefined and dv = Undefined
      and us = "[sanitized store0 carol, sanitized store0 alice]"
      and rs = "[guest_role, admin_role]" and pv = "JStr ''2''" and lv = "JStr ''1''"
      and d = 10 and m = 1000 and k = 25]
  from T [where v = "JStr ''-3''" and n = "- 3"] u t e'
  have 1: "getAllUsers lib0 store0 (JStr ''2'') (JStr ''1'') Undefined Undefined
      = Inr (Envelope [sanitized store0 alice] 2 2 1 2)"
    by (simp add: p l)
  from T [where v = "JStr ''-3''" and n = "- 3"] r t e'
  have 2: "getAllRoles lib0 store0 Undefined Undefined (JStr ''2'') (JStr ''1'')
      = Inr (Envelope [admin_role] 2 2 1 2)"
    by (simp add: p l)
  from T [where v = "JStr ''-3''" and n = "- 3"] m have 3: "toInt (JStr ''-3'') 10 = 10" by blast
  from T [where v = "JStr ''7up''" and n = 7] s have 4: "toInt (JStr ''7up'') 10 = 7" by blast
  from T [where v = "JStr ''-3''" and n = "- 3"] b have 5: "toInt (JNum 1000) 10 = 1000" by blast
  from T [where v = "JStr ''-3''" and n = "- 3"] c have 6: "toInt (JStr (digits 25)) 10 = 25"
    by simp
  from T [where v = "JStr [CHR 0xA0, CHR ''5'']" and n = 5] w
  have 7: "toInt (JStr [CHR 0xA0, CHR ''5'']) 10 = 5" by blast
  from u r e 1 2 3 4 5 6 7 m s g show ?thesis by simp
qed

text \<open>
  A \<open>page\<close> that is supplied as the number 0, or as the empty string of \<^verbatim>\<open>?page=\<close>, gives the
  plain array and not the envelope; and the limit \<^verbatim>\<open>1up\<close>, which is not numeric, is read
  as 1 and does not fall back to 10.
\<close>

theorem paging_supplied_but_plain:
  "getAllUsers lib0 store0 (JNum 0) Undefined Undefined Undefined
     = Inr (Plain [sanitized store0 carol, sanitized store0 alice])
   \<and> getAllRoles lib0 store0 Undefined Undefined (JStr []) Undefined
     = Inr (Plain [guest_role, admin_role])
   \<and> getAllRoles lib0 store0 Undefined Undefined Undefined (JStr ''1up'')
     = Inr (Envelope [guest_role] 2 1 1 2)"
  by code_simp




subsection \<open>Filters\<close>


lemma rx_literal_Cons: "rx_literal (c # p) \<Longrightarrow> c \<noteq> CHR ''*'' \<and> c \<noteq> CHR ''.'' \<and> rx_literal p"
  by (simp add: rx_literal_def)











subsection \<open>Updates in the store\<close>


lemma sanitized_same_roles: "roles st' = roles st \<Longrightarrow> sanitized st' u = sanitized st u"
  by (simp add: sanitized_def)

lemma length_modify_first: "length (modify_first P f xs) = length xs"
  by (induction xs) auto

lemma modify_first_nth:
  "i < length xs \<Longrightarrow>
     modify_first P f xs ! i = xs ! i \<or> (P (xs ! i) \<and> modify_first P f xs ! i = f (xs ! i))"
proof (induction xs arbitrary: i)
  case Nil
  then show ?case by simp
next
  case (Cons x xs)
  then show ?case by (cases i) auto
qed



lemma find_and_update_same_keys:
  "find P (users st) = Some u \<Longrightarrow> username (f u) = username u \<Longrightarrow> email (f u) = email u \<Longrightarrow>
     find_and_update P f st = Inr (Some (f u), st\<lparr>users := modify_first P f (users st)\<rparr>)"
  by (simp add: find_and_update_def unique_violation_def)

lemma find_and_update_store:
  "find_and_update P f st = Inr (d, st') \<Longrightarrow>
     st' = st \<or> st' = st\<lparr>users := modify_first P f (users st)\<rparr>"
  by (auto simp: find_and_update_def split: option.splits)

lemma pick_allowed_eq: "pick_allowed upd k = (if k \<in> set allowed then upd k else Undefined)"
  by (simp add: pick_allowed_def allowed_def empty_obj_def)

lemma pick_allowed_cong:
  "\<forall>k \<in> set allowed. upd k = upd' k \<Longrightarrow> pick_allowed upd = pick_allowed upd'"
  by (rule ext) (simp add: pick_allowed_eq)

lemma apply_set_frame:
  "uid (apply_set s u) = uid u"
  "set_isDelete s = None \<Longrightarrow> isDelete (apply_set s u) = isDelete u"
  "set_createdAt s = None \<Longrightarrow> createdAt (apply_set s u) = createdAt u"
  by (simp_all add: apply_set_def)

lemma cast_path_Undefined: "cast_path c Undefined = Some None"
  by (simp add: cast_path_def)

lemma cast_update_absent:
  assumes "cast_update lib toSet r = Some s"
  shows "toSet ''isDelete'' = Undefined \<Longrightarrow> set_isDelete s = None"
    and "toSet ''createdAt'' = Undefined \<Longrightarrow> set_createdAt s = None"
    and "toSet ''_id'' = Undefined \<Longrightarrow> set_id s = None"
  using assms unfolding cast_update_def
  by (auto simp: cast_path_Undefined split: option.splits)

lemma picked_absent:
  "hash_password lib (pick_allowed upd) ''isDelete'' = Undefined"
  "hash_password lib (pick_allowed upd) ''createdAt'' = Undefined"
  "hash_password lib (pick_allowed upd) ''_id'' = Undefined"
  by (simp_all add: hash_password_def pick_allowed_eq allowed_def)

lemma cast_update_picked:
  assumes "cast_update lib (hash_password lib (pick_allowed upd)) r = Some s"
  shows "set_isDelete s = None" "set_createdAt s = None" "set_id s = None"
  using cast_update_absent [OF assms] picked_absent [of lib upd] by simp_all

lemma find_and_set_no_id: "set_id s = None \<Longrightarrow> find_and_set P s st = find_and_update P (apply_set s) st"
  by (simp add: find_and_set_def find_and_update_def split: option.splits)

lemma updateUser_store:
  assumes "updateUser lib st iv upd = Inr (res, st')"
  shows "st' = st \<or> (\<exists>s i. castObjectId lib iv = Some i \<and> set_isDelete s = None
            \<and> set_createdAt s = None
            \<and> st' = st\<lparr>users := modify_first (\<lambda>u. uid u = i) (apply_set s) (users st)\<rparr>)"
proof (cases "isValidObjectId lib iv")
  case False
  with assms show ?thesis by (simp add: updateUser_def)
next
  case True
  with assms obtain rid d0 where
    w: "User_findByIdAndUpdate lib st iv (hash_password lib (pick_allowed upd)) rid = Inr (d0, st')"
    unfolding updateUser_def Let_def
    by (auto split: sum.splits prod.splits)
  then obtain i s d where i: "castObjectId lib iv = Some i"
    and s: "cast_update lib (hash_password lib (pick_allowed upd)) rid = Some s"
    and f: "find_and_set (\<lambda>u. uid u = i) s st = Inr (d, st')"
    unfolding User_findByIdAndUpdate_def by (auto split: option.splits)
  from f cast_update_picked(3) [OF s]
  have "find_and_update (\<lambda>u. uid u = i) (apply_set s) st = Inr (d, st')"
    by (simp add: find_and_set_no_id)
  from find_and_update_store [OF this] i cast_update_picked(1,2) [OF s] show ?thesis by blast
qed

text \<open>
  The store writes the paths that it is given. The update \<open>{isDelete: true, fullName: "X"}\<close>,
  handed to \<open>findByIdAndUpdate\<close> as it is, deletes the user:
\<close>

lemma store_sets_any_path:
  "User_findByIdAndUpdate lib0 store0 id_alice flagged_update None
     = Inr (Some (alice\<lparr>fullName := ''X'', isDelete := True\<rparr>),
            store0\<lparr>users := [alice\<lparr>fullName := ''X'', isDelete := True\<rparr>, bob, carol]\<rparr>)"
  by code_simp


subsection \<open>The fields that an update may write\<close>

lemma flagged_update_set:
  assumes "castString lib (JStr ''X'') = Some ''X''"
  shows "validate_role lib st (pick_allowed flagged_update ''role'') = Inr None"
    and "cast_update lib (hash_password lib (pick_allowed flagged_update)) None
          = Some (no_set\<lparr>set_fullName := Some ''X''\<rparr>)"
  using assms
  by (simp_all add: pick_allowed_eq allowed_def flagged_update_def empty_obj_def validate_role_def
        hash_password_def cast_update_def cast_path_def no_set_def)

text \<open>
  Claim C6. \<open>updateUser\<close> reads the \<open>updates\<close> object at the seven names of the allow-list
  only: two objects that agree there give the same result, whatever else they hold. When it
  succeeds, the roles are untouched, and every stored user keeps its identifier, its
  \<open>isDelete\<close> and its \<open>createdAt\<close>; a user with another identifier is not changed at all.
  Updating an existing user with \<open>{isDelete: true, fullName: "X"}\<close> sets \<open>fullName\<close> to \<open>X\<close>
  and leaves \<open>isDelete\<close> as it was. The store would write \<open>isDelete\<close>, \<open>createdAt\<close> or any
  other path of the schema that \<open>toSet\<close> held: it is the loop over the allow-list that keeps
  them out.
\<close>

theorem updateUser_allow_list:
  "((\<forall>k \<in> set allowed. upd k = upd' k) \<longrightarrow> updateUser lib st iv upd = updateUser lib st iv upd')
   \<and> (updateUser lib st iv upd = Inr (res, st') \<longrightarrow>
        roles st' = roles st \<and> length (users st') = length (users st)
        \<and> (\<forall>j < length (users st).
              uid (users st' ! j) = uid (users st ! j)
              \<and> isDelete (users st' ! j) = isDelete (users st ! j)
              \<and> createdAt (users st' ! j) = createdAt (users st ! j)
              \<and> (castObjectId lib iv \<noteq> Some (uid (users st ! j)) \<longrightarrow> users st' ! j = users st ! j)))
   \<and> (isValidObjectId lib iv \<and> castObjectId lib iv = Some i
        \<and> find (\<lambda>x. uid x = i) (users st) = Some u
        \<and> castString lib (JStr ''X'') = Some ''X'' \<longrightarrow>
        updateUser lib st iv flagged_update =
          Inr (Some (sanitized st (u\<lparr>fullName := ''X''\<rparr>)),
               st\<lparr>users := modify_first (\<lambda>x. uid x = i)
                               (\<lambda>x. x\<lparr>fullName := ''X''\<rparr>) (users st)\<rparr>)
        \<and> isDelete (u\<lparr>fullName := ''X''\<rparr>) = isDelete u)"
  (is "?A \<and> ?B \<and> ?C")
proof -
  have A: ?A
  proof
    assume "\<forall>k \<in> set allowed. upd k = upd' k"
    then have "pick_allowed upd = pick_allowed upd'" by (rule pick_allowed_cong)
    then show "updateUser lib st iv upd = updateUser lib st iv upd'"
      by (simp add: updateUser_def)
  qed
  have B: ?B
  proof
    assume "updateUser lib st iv upd = Inr (res, st')"
    from updateUser_store [OF this] show "roles st' = roles st \<and> length (users st') = length (users st)
        \<and> (\<forall>j < length (users st).
              uid (users st' ! j) = uid (users st ! j)
              \<and> isDelete (users st' ! j) = isDelete (users st ! j)
              \<and> createdAt (users st' ! j) = createdAt (users st ! j)
              \<and> (castObjectId lib iv \<noteq> Some (uid (users st ! j)) \<longrightarrow> users st' ! j = users st ! j))"
    proof
      assume "st' = st"
      then show ?thesis by simp
    next
      assume "\<exists>s i. castObjectId lib iv = Some i \<and> set_isDelete s = None
            \<and> set_createdAt s = None
            \<and> st' = st\<lparr>users := modify_first (\<lambda>u. uid u = i) (apply_set s) (users st)\<rparr>"
      then obtain s i where i: "castObjectId lib iv = Some i"
        and d: "set_isDelete s = None" and c: "set_createdAt s = None"
        and st': "st' = st\<lparr>users := modify_first (\<lambda>u. uid u = i) (apply_set s) (users st)\<rparr>"
        by blast
      have "uid (users st' ! j) = uid (users st ! j)
              \<and> isDelete (users st' ! j) = isDelete (users st ! j)
              \<and> createdAt (users st' ! j) = createdAt (users st ! j)
              \<and> (castObjectId lib iv \<noteq> Some (uid (users st ! j)) \<longrightarrow> users st' ! j = users st ! j)"
        if "j < length (users st)" for j
        using modify_first_nth [OF that, of "\<lambda>u. uid u = i" "apply_set s"]
        by (auto simp: st' i apply_set_frame(1) apply_set_frame(2) [OF d] apply_set_frame(3) [OF c])
      then show ?thesis by (simp add: st' length_modify_first)
    qed
  qed
  have C: ?C
  proof
    assume c: "isValidObjectId lib iv \<and> castObjectId lib iv = Some i
        \<and> find (\<lambda>x. uid x = i) (users st) = Some u
        \<and> castString lib (JStr ''X'') = Some ''X''"
    let ?s = "no_set\<lparr>set_fullName := Some ''X''\<rparr>"
    let ?st' = "st\<lparr>users := modify_first (\<lambda>x. uid x = i)
                               (\<lambda>x. x\<lparr>fullName := ''X''\<rparr>) (users st)\<rparr>"
    have f: "apply_set ?s = (\<lambda>x. x\<lparr>fullName := ''X''\<rparr>)"
      by (rule ext) (simp add: apply_set_def no_set_def)
    from c have x: "castString lib (JStr ''X'') = Some ''X''" by simp
    from c have v: "isValidObjectId lib iv" by simp
    from c have i: "castObjectId lib iv = Some i" by simp
    from c have "find_and_update (\<lambda>x. uid x = i) (apply_set ?s) st
        = Inr (Some (u\<lparr>fullName := ''X''\<rparr>), ?st')"
      unfolding f by (simp add: find_and_update_same_keys)
    then have fu: "find_and_set (\<lambda>x. uid x = i) ?s st = Inr (Some (u\<lparr>fullName := ''X''\<rparr>), ?st')"
      by (simp add: find_and_set_no_id no_set_def)
    have r: "sanitized ?st' (u\<lparr>fullName := ''X''\<rparr>) = sanitized st (u\<lparr>fullName := ''X''\<rparr>)"
      by (rule sanitized_same_roles) simp
    have "updateUser lib st iv flagged_update
        = Inr (Some (sanitized st (u\<lparr>fullName := ''X''\<rparr>)), ?st')"
      unfolding updateUser_def Let_def User_findByIdAndUpdate_def
      using v by (simp add: flagged_update_set [OF x] i fu r)
    then show "updateUser lib st iv flagged_update =
          Inr (Some (sanitized st (u\<lparr>fullName := ''X''\<rparr>)), ?st')
        \<and> isDelete (u\<lparr>fullName := ''X''\<rparr>) = isDelete u"
      by simp
  qed
  show ?thesis by (rule conjI [OF A conjI [OF B C]])
qed

theorem updateUser_allow_list_witness:
  "flagged_update ''isDelete'' = JBool True
   \<and> (empty_obj(''fullName'' := JStr ''X'')) ''isDelete'' = Undefined
   \<and> updateUser lib0 store0 id_alice flagged_update
       = updateUser lib0 store0 id_alice (empty_obj(''fullName'' := JStr ''X''))
   \<and> updateUser lib0 store0 id_alice flagged_update
       = Inr (Some (sanitized store0 (alice\<lparr>fullName := ''X''\<rparr>)),
              store0\<lparr>users := [alice\<lparr>fullName := ''X''\<rparr>, bob, carol]\<rparr>)
   \<and> isDelete (alice\<lparr>fullName := ''X''\<rparr>) = isDelete alice
   \<and> isDelete (users (store0\<lparr>users := [alice\<lparr>fullName := ''X''\<rparr>, bob, carol]\<rparr>) ! 0)
       = isDelete (users store0 ! 0)"
proof -
  let ?st' = "store0\<lparr>users := [alice\<lparr>fullName := ''X''\<rparr>, bob, carol]\<rparr>"
  have a: "\<forall>k \<in> set allowed. flagged_update k = (empty_obj(''fullName'' := JStr ''X'')) k"
    by code_simp
  have c: "isValidObjectId lib0 id_alice
      \<and> castObjectId lib0 id_alice = Some ''111111111111111111111111''
      \<and> find (\<lambda>x. uid x = ''111111111111111111111111'') (users store0) = Some alice
      \<and> castString lib0 (JStr ''X'') = Some ''X''" by code_simp
  have m: "modify_first (\<lambda>x. uid x = ''111111111111111111111111'') (\<lambda>x. x\<lparr>fullName := ''X''\<rparr>)
      (users store0) = [alice\<lparr>fullName := ''X''\<rparr>, bob, carol]" by code_simp
  have n: "(0::nat) < length (users store0)" by code_simp
  note T = updateUser_allow_list [where lib = lib0 and st = store0 and iv = id_alice
      and upd = flagged_update and u = alice and i = "''111111111111111111111111''"
      and res = "Some (sanitized store0 (alice\<lparr>fullName := ''X''\<rparr>))" and st' = ?st']
  from T [where upd' = "empty_obj(''fullName'' := JStr ''X'')"] a
  have 1: "updateUser lib0 store0 id_alice flagged_update
       = updateUser lib0 store0 id_alice (empty_obj(''fullName'' := JStr ''X''))" by blast
  from T c have 2: "updateUser lib0 store0 id_alice flagged_update
       = Inr (Some (sanitized store0 (alice\<lparr>fullName := ''X''\<rparr>)), ?st')
     \<and> isDelete (alice\<lparr>fullName := ''X''\<rparr>) = isDelete alice"
    unfolding m by blast
  with T n have 3: "isDelete (users ?st' ! 0) = isDelete (users store0 ! 0)" by blast
  have b: "flagged_update ''isDelete'' = JBool True
      \<and> (empty_obj(''fullName'' := JStr ''X'')) ''isDelete'' = Undefined" by code_simp
  from b 1 2 3 show ?thesis by (intro conjI) simp_all
qed

subsection \<open>Verification\<close>









subsection \<open>Duplicate usernames and emails\<close>


lemma in_remove1_other: "x \<in> set xs \<Longrightarrow> x \<noteq> u \<Longrightarrow> x \<in> set (remove1 u xs)"
  by simp

lemma unique_violation_username:
  "(case old of None \<Rightarrow> True | Some u \<Rightarrow> username u \<noteq> username new) \<Longrightarrow>
     \<exists>x \<in> set others. username x = username new \<Longrightarrow>
     unique_violation others old new = Some ''username''"
  by (simp add: unique_violation_def list_ex_iff)

lemma unique_violation_email:
  "\<not> ((case old of None \<Rightarrow> True | Some u \<Rightarrow> username u \<noteq> username new)
       \<and> (\<exists>x \<in> set others. username x = username new)) \<Longrightarrow>
     (case old of None \<Rightarrow> True | Some u \<Rightarrow> email u \<noteq> email new) \<Longrightarrow>
     \<exists>x \<in> set others. email x = email new \<Longrightarrow>
     unique_violation others old new = Some ''email''"
  by (auto simp: unique_violation_def list_ex_iff)

lemma createUser_duplicate:
  assumes "truthy (payload ''username'')" "truthy (payload ''password'')" "truthy (payload ''email'')"
    and "validate_role lib st (payload ''role'') = Inr rid"
    and "castString lib (JStr (js_trim (js_String (payload ''username'')))) = Some n"
    and "castString lib (JStr (bcrypt_hash lib (js_String (payload ''password'')))) = Some h"
    and "castString lib (JStr (js_trim (js_String (payload ''email'')))) = Some e"
    and "castString lib (if payload ''fullName'' = Undefined then JStr [] else payload ''fullName'') = Some f"
    and "castString lib (if payload ''avatarUrl'' = Undefined then JStr [] else payload ''avatarUrl'') = Some a"
    and "unique_violation (users st) None
           \<lparr>uid = new_id, username = n, password = h, email = e, fullName = f, avatarUrl = a,
            role = rid, status = (case payload ''status'' of JBool b \<Rightarrow> b | _ \<Rightarrow> False),
            isDelete = False, createdAt = now\<rparr> = Some k"
  shows "createUser lib st new_id now payload = Inl (HttpError 409 (dupField (Some [k]) @ '' must be unique''))"
  using assms unfolding createUser_def User_create_def Let_def by simp

lemma updateUser_duplicate:
  assumes "isValidObjectId lib iv" and "castObjectId lib iv = Some i"
    and "find (\<lambda>x. uid x = i) (users st) = Some u"
    and "validate_role lib st (pick_allowed upd ''role'') = Inr rid"
    and "cast_update lib (hash_password lib (pick_allowed upd)) rid = Some s"
    and "unique_violation (remove1 u (users st)) (Some u) (apply_set s u) = Some k"
  shows "updateUser lib st iv upd = Inl (HttpError 409 (dupField (Some [k]) @ '' must be unique''))"
proof -
  have "find_and_update (\<lambda>x. uid x = i) (apply_set s) st = Inl (DuplicateKey (Some [k]))"
    unfolding find_and_update_def by (simp only: assms(3,6) option.case)
  then have "find_and_set (\<lambda>x. uid x = i) s st = Inl (DuplicateKey (Some [k]))"
    by (simp only: find_and_set_no_id [OF cast_update_picked(3) [OF assms(5)]])
  then show ?thesis
    unfolding updateUser_def Let_def User_findByIdAndUpdate_def
    by (simp only: assms(1,2,4,5) not_True_eq_False if_False sum.case option.case
          on_store_error.simps)
qed

lemma createUser_username_taken:
  assumes "truthy (payload ''username'')" "truthy (payload ''password'')" "truthy (payload ''email'')"
    and "validate_role lib st (payload ''role'') = Inr rid"
    and "castString lib (JStr (js_trim (js_String (payload ''username'')))) = Some n"
    and "castString lib (JStr (bcrypt_hash lib (js_String (payload ''password'')))) = Some h"
    and "castString lib (JStr (js_trim (js_String (payload ''email'')))) = Some e"
    and "castString lib (if payload ''fullName'' = Undefined then JStr [] else payload ''fullName'') = Some f"
    and "castString lib (if payload ''avatarUrl'' = Undefined then JStr [] else payload ''avatarUrl'') = Some a"
    and "\<exists>x \<in> set (users st). username x = n"
  shows "createUser lib st new_id now payload = Inl (HttpError 409 ''username must be unique'')"
proof -
  let ?doc = "\<lparr>uid = new_id, username = n, password = h, email = e, fullName = f, avatarUrl = a,
            role = rid, status = (case payload ''status'' of JBool b \<Rightarrow> b | _ \<Rightarrow> False),
            isDelete = False, createdAt = now\<rparr>"
  from assms(10) have "unique_violation (users st) None ?doc = Some ''username''"
    by (intro unique_violation_username) simp_all
  from createUser_duplicate [OF assms(1-9) this] show ?thesis by (simp add: dupField_def)
qed

lemma createUser_email_taken:
  assumes "truthy (payload ''username'')" "truthy (payload ''password'')" "truthy (payload ''email'')"
    and "validate_role lib st (payload ''role'') = Inr rid"
    and "castString lib (JStr (js_trim (js_String (payload ''username'')))) = Some n"
    and "castString lib (JStr (bcrypt_hash lib (js_String (payload ''password'')))) = Some h"
    and "castString lib (JStr (js_trim (js_String (payload ''email'')))) = Some e"
    and "castString lib (if payload ''fullName'' = Undefined then JStr [] else payload ''fullName'') = Some f"
    and "castString lib (if payload ''avatarUrl'' = Undefined then JStr [] else payload ''avatarUrl'') = Some a"
    and "\<forall>x \<in> set (users st). username x \<noteq> n" and "\<exists>x \<in> set (users st). email x = e"
  shows "createUser lib st new_id now payload = Inl (HttpError 409 ''email must be unique'')"
proof -
  let ?doc = "\<lparr>uid = new_id, username = n, password = h, email = e, fullName = f, avatarUrl = a,
            role = rid, status = (case payload ''status'' of JBool b \<Rightarrow> b | _ \<Rightarrow> False),
            isDelete = False, createdAt = now\<rparr>"
  from assms(10,11) have "unique_violation (users st) None ?doc = Some ''email''"
    by (intro unique_violation_email) auto
  from createUser_duplicate [OF assms(1-9) this] show ?thesis by (simp add: dupField_def)
qed

lemma updateUser_username_taken:
  assumes "isValidObjectId lib iv" and "castObjectId lib iv = Some i"
    and "find (\<lambda>x. uid x = i) (users st) = Some u"
    and "validate_role lib st (pick_allowed upd ''role'') = Inr rid"
    and "cast_update lib (hash_password lib (pick_allowed upd)) rid = Some s"
    and "username (apply_set s u) \<noteq> username u"
    and "\<exists>x \<in> set (users st). username x = username (apply_set s u)"
  shows "updateUser lib st iv upd = Inl (HttpError 409 ''username must be unique'')"
proof -
  from assms(7) obtain x where x: "x \<in> set (users st)" "username x = username (apply_set s u)"
    by blast
  with assms(6) have "x \<in> set (remove1 u (users st))" by (intro in_remove1_other) auto
  with assms(6) x(2)
  have "unique_violation (remove1 u (users st)) (Some u) (apply_set s u) = Some ''username''"
    by (intro unique_violation_username) auto
  from updateUser_duplicate [OF assms(1-5) this] show ?thesis by (simp add: dupField_def)
qed

lemma updateUser_email_taken:
  assumes "isValidObjectId lib iv" and "castObjectId lib iv = Some i"
    and "find (\<lambda>x. uid x = i) (users st) = Some u"
    and "validate_role lib st (pick_allowed upd ''role'') = Inr rid"
    and "cast_update lib (hash_password lib (pick_allowed upd)) rid = Some s"
    and "username (apply_set s u) = username u
            \<or> (\<forall>x \<in> set (users st). username x \<noteq> username (apply_set s u))"
    and "email (apply_set s u) \<noteq> email u"
    and "\<exists>x \<in> set (users st). email x = email (apply_set s u)"
  shows "updateUser lib st iv upd = Inl (HttpError 409 ''email must be unique'')"
proof -
  from assms(8) obtain x where x: "x \<in> set (users st)" "email x = email (apply_set s u)"
    by blast
  with assms(7) have r: "x \<in> set (remove1 u (users st))" by (intro in_remove1_other) auto
  have sub: "y \<in> set (users st)" if "y \<in> set (remove1 u (users st))" for y
    using that by (meson notin_set_remove1)
  have no_name: "\<not> ((case Some u of None \<Rightarrow> True | Some w \<Rightarrow> username w \<noteq> username (apply_set s u))
       \<and> (\<exists>y \<in> set (remove1 u (users st)). username y = username (apply_set s u)))"
    using assms(6) sub by auto
  have changed: "case Some u of None \<Rightarrow> True | Some w \<Rightarrow> email w \<noteq> email (apply_set s u)"
    using assms(7) by simp
  have taken: "\<exists>y \<in> set (remove1 u (users st)). email y = email (apply_set s u)"
    using r x(2) by blast
  have "unique_violation (remove1 u (users st)) (Some u) (apply_set s u) = Some ''email''"
    by (rule unique_violation_email [OF no_name changed taken])
  from updateUser_duplicate [OF assms(1-5) this] show ?thesis by (simp add: dupField_def)
qed

lemma createUser_stores_username:
  assumes "createUser lib st new_id now payload = Inr (out, st')"
    and "castString lib (JStr (js_trim (js_String (payload ''username'')))) = Some n"
  shows "\<exists>d \<in> set (users st'). username d = n"
  using assms unfolding createUser_def User_create_def Let_def
  by (auto split: if_splits sum.splits prod.splits option.splits)

lemma createUser_same_username_again:
  assumes "createUser lib st new_id now payload = Inr (out, st')"
    and "castString lib (JStr (js_trim (js_String (payload ''username'')))) = Some n"
    and "truthy (again ''username'')" "truthy (again ''password'')" "truthy (again ''email'')"
    and "validate_role lib st' (again ''role'') = Inr rid"
    and "castString lib (JStr (js_trim (js_String (again ''username'')))) = Some n"
    and "castString lib (JStr (bcrypt_hash lib (js_String (again ''password'')))) = Some h"
    and "castString lib (JStr (js_trim (js_String (again ''email'')))) = Some e"
    and "castString lib (if again ''fullName'' = Undefined then JStr [] else again ''fullName'') = Some f"
    and "castString lib (if again ''avatarUrl'' = Undefined then JStr [] else again ''avatarUrl'') = Some a"
  shows "createUser lib st' next_id later again = Inl (HttpError 409 ''username must be unique'')"
  by (rule createUser_username_taken [OF assms(3-11) createUser_stores_username [OF assms(1,2)]])

text \<open>
  Claim C5. Let the inputs of \<open>createUser\<close> be valid otherwise: the three required fields
  are there, the role if any exists, and every value is accepted by its cast. If the
  username to write is the username of a stored record, \<open>createUser\<close> fails with status 409
  and the message \<open>username must be unique\<close>; if only the email to write is taken, with 409
  and \<open>email must be unique\<close>. The same holds for \<open>updateUser\<close> on an existing record when the
  update gives it a username, or an email, that it did not have and that a stored record has.
  In particular, after a \<open>createUser\<close> that succeeded, a second \<open>createUser\<close> with the same
  username, valid otherwise, fails with 409 and \<open>username must be unique\<close>.
\<close>

theorem duplicate_write_is_conflict:
  "(truthy (payload ''username'') \<and> truthy (payload ''password'') \<and> truthy (payload ''email'')
     \<and> validate_role lib st (payload ''role'') = Inr rid
     \<and> castString lib (JStr (js_trim (js_String (payload ''username'')))) = Some n
     \<and> castString lib (JStr (bcrypt_hash lib (js_String (payload ''password'')))) = Some h
     \<and> castString lib (JStr (js_trim (js_String (payload ''email'')))) = Some e
     \<and> castString lib (if payload ''fullName'' = Undefined then JStr [] else payload ''fullName'') = Some f
     \<and> castString lib (if payload ''avatarUrl'' = Undefined then JStr [] else payload ''avatarUrl'') = Some a
     \<longrightarrow>
       ((\<exists>x \<in> set (users st). username x = n) \<longrightarrow>
          createUser lib st new_id now payload = Inl (HttpError 409 ''username must be unique''))
       \<and> ((\<forall>x \<in> set (users st). username x \<noteq> n) \<and> (\<exists>x \<in> set (users st). email x = e) \<longrightarrow>
          createUser lib st new_id now payload = Inl (HttpError 409 ''email must be unique'')))
   \<and> (isValidObjectId lib iv \<and> castObjectId lib iv = Some i
     \<and> find (\<lambda>x. uid x = i) (users st) = Some u
     \<and> validate_role lib st (pick_allowed upd ''role'') = Inr urid
     \<and> cast_update lib (hash_password lib (pick_allowed upd)) urid = Some s
     \<longrightarrow>
       (username (apply_set s u) \<noteq> username u
          \<and> (\<exists>x \<in> set (users st). username x = username (apply_set s u)) \<longrightarrow>
          updateUser lib st iv upd = Inl (HttpError 409 ''username must be unique''))
       \<and> ((username (apply_set s u) = username u
            \<or> (\<forall>x \<in> set (users st). username x \<noteq> username (apply_set s u)))
          \<and> email (apply_set s u) \<noteq> email u
          \<and> (\<exists>x \<in> set (users st). email x = email (apply_set s u)) \<longrightarrow>
          updateUser lib st iv upd = Inl (HttpError 409 ''email must be unique'')))
   \<and> (createUser lib st new_id now payload = Inr (out, st_one)
     \<and> castString lib (JStr (js_trim (js_String (payload ''username'')))) = Some n
     \<and> truthy (again ''username'') \<and> truthy (again ''password'') \<and> truthy (again ''email'')
     \<and> validate_role lib st_one (again ''role'') = Inr arid
     \<and> castString lib (JStr (js_trim (js_String (again ''username'')))) = Some n
     \<and> castString lib (JStr (bcrypt_hash lib (js_String (again ''password'')))) = Some ah
     \<and> castString lib (JStr (js_trim (js_String (again ''email'')))) = Some ae
     \<and> castString lib (if again ''fullName'' = Undefined then JStr [] else again ''fullName'') = Some af
     \<and> castString lib (if again ''avatarUrl'' = Undefined then JStr [] else again ''avatarUrl'') = Some aa
     \<longrightarrow>
       createUser lib st_one next_id later again = Inl (HttpError 409 ''username must be unique''))"
  apply (intro conjI impI)
      apply (elim conjE, rule createUser_username_taken; assumption)
     apply (elim conjE, rule createUser_email_taken; assumption)
    apply (elim conjE, rule updateUser_username_taken; assumption)
   apply (elim conjE, rule updateUser_email_taken; assumption)
  apply (elim conjE, rule createUser_same_username_again; assumption)
  done


theorem duplicate_write_is_conflict_witness:
  "createUser lib0 store0 ''444444444444444444444444'' 40 alice_again
     = Inl (HttpError 409 ''username must be unique'')
   \<and> createUser lib0 store0 ''444444444444444444444444'' 40 same_email
     = Inl (HttpError 409 ''email must be unique'')
   \<and> updateUser lib0 store0 id_alice rename_to_carol
     = Inl (HttpError 409 ''username must be unique'')
   \<and> \<not> isl (createUser lib0 store0 ''444444444444444444444444'' 40 dave_payload)
   \<and> createUser lib0
         (snd (projr (createUser lib0 store0 ''444444444444444444444444'' 40 dave_payload)))
         ''555555555555555555555555'' 41 dave_again
     = Inl (HttpError 409 ''username must be unique'')"
proof -
  let ?first = "createUser lib0 store0 ''444444444444444444444444'' 40 dave_payload"
  have fst_ok: "\<not> isl ?first" by code_simp
  have twice: "castString lib0 (JStr (js_trim (js_String (dave_payload ''username'')))) = Some ''dave''
     \<and> truthy (dave_again ''username'') \<and> truthy (dave_again ''password'')
     \<and> truthy (dave_again ''email'')
     \<and> validate_role lib0 (snd (projr ?first)) (dave_again ''role'') = Inr None
     \<and> castString lib0 (JStr (js_trim (js_String (dave_again ''username'')))) = Some ''dave''
     \<and> castString lib0 (JStr (bcrypt_hash lib0 (js_String (dave_again ''password''))))
         = Some ''$2b$10$other''
     \<and> castString lib0 (JStr (js_trim (js_String (dave_again ''email'')))) = Some ''dave2@x.com''
     \<and> castString lib0 (if dave_again ''fullName'' = Undefined then JStr []
                          else dave_again ''fullName'') = Some []
     \<and> castString lib0 (if dave_again ''avatarUrl'' = Undefined then JStr []
                          else dave_again ''avatarUrl'') = Some []" by code_simp
  have c: "truthy (alice_again ''username'') \<and> truthy (alice_again ''password'')
     \<and> truthy (alice_again ''email'')
     \<and> validate_role lib0 store0 (alice_again ''role'') = Inr None
     \<and> castString lib0 (JStr (js_trim (js_String (alice_again ''username'')))) = Some ''alice''
     \<and> castString lib0 (JStr (bcrypt_hash lib0 (js_String (alice_again ''password''))))
         = Some ''$2b$10$pw''
     \<and> castString lib0 (JStr (js_trim (js_String (alice_again ''email'')))) = Some ''z@x.com''
     \<and> castString lib0 (if alice_again ''fullName'' = Undefined then JStr []
                          else alice_again ''fullName'') = Some []
     \<and> castString lib0 (if alice_again ''avatarUrl'' = Undefined then JStr []
                          else alice_again ''avatarUrl'') = Some []" by code_simp
  have cn: "\<exists>x \<in> set (users store0). username x = ''alice''" by code_simp
  have d: "truthy (same_email ''username'') \<and> truthy (same_email ''password'')
     \<and> truthy (same_email ''email'')
     \<and> validate_role lib0 store0 (same_email ''role'') = Inr None
     \<and> castString lib0 (JStr (js_trim (js_String (same_email ''username'')))) = Some ''zoe''
     \<and> castString lib0 (JStr (bcrypt_hash lib0 (js_String (same_email ''password''))))
         = Some ''$2b$10$pw''
     \<and> castString lib0 (JStr (js_trim (js_String (same_email ''email'')))) = Some ''a@x.com''
     \<and> castString lib0 (if same_email ''fullName'' = Undefined then JStr []
                          else same_email ''fullName'') = Some []
     \<and> castString lib0 (if same_email ''avatarUrl'' = Undefined then JStr []
                          else same_email ''avatarUrl'') = Some []" by code_simp
  have dn: "(\<forall>x \<in> set (users store0). username x \<noteq> ''zoe'')
     \<and> (\<exists>x \<in> set (users store0). email x = ''a@x.com'')" by code_simp
  have u: "isValidObjectId lib0 id_alice
     \<and> castObjectId lib0 id_alice = Some ''111111111111111111111111''
     \<and> find (\<lambda>x. uid x = ''111111111111111111111111'') (users store0) = Some alice
     \<and> validate_role lib0 store0 (pick_allowed rename_to_carol ''role'') = Inr None
     \<and> cast_update lib0 (hash_password lib0 (pick_allowed rename_to_carol)) None
         = Some carol_name_set" by code_simp
  have un: "username (apply_set carol_name_set alice) \<noteq> username alice
     \<and> (\<exists>x \<in> set (users store0). username x = username (apply_set carol_name_set alice))"
    by code_simp
  note create = duplicate_write_is_conflict [THEN conjunct1, THEN mp]
  note update = duplicate_write_is_conflict [THEN conjunct2, THEN conjunct1, THEN mp]
  note twice_rule = duplicate_write_is_conflict [THEN conjunct2, THEN conjunct2, THEN mp]
  have 1: "createUser lib0 store0 ''444444444444444444444444'' 40 alice_again
     = Inl (HttpError 409 ''username must be unique'')"
    by (rule create [OF c, THEN conjunct1, THEN mp, OF cn])
  have 2: "createUser lib0 store0 ''444444444444444444444444'' 40 same_email
     = Inl (HttpError 409 ''email must be unique'')"
    by (rule create [OF d, THEN conjunct2, THEN mp, OF dn])
  have 3: "updateUser lib0 store0 id_alice rename_to_carol
     = Inl (HttpError 409 ''username must be unique'')"
    by (rule update [OF u, THEN conjunct1, THEN mp, OF un])
  have 4: "createUser lib0 (snd (projr ?first)) ''555555555555555555555555'' 41 dave_again
     = Inl (HttpError 409 ''username must be unique'')"
    by (rule twice_rule [OF conjI [OF not_isl_pair [OF fst_ok] twice]])
  from 1 2 3 fst_ok 4 show ?thesis by (intro conjI)
qed

end
